theory Spec2Isabelle
  imports Main "HOL-Library.Sublist"
begin

section \<open>Data model (server/src/database/database.ts)\<close>

text \<open>
  An \<open>ObjectId\<close> is an opaque key; it is modelled as a natural number.  JavaScript numbers
  that hold epoch seconds and retry counters are modelled as unbounded integers (the
  fractional and NaN values of a JS number are outside the model).  A \<open>Date\<close> is the
  number of milliseconds since the epoch.  Documents read from a collection always carry
  their \<open>_id\<close>, so the field is not optional here.
\<close>

type_synonym ObjectId = nat

datatype msg_status = Pending | Sent | Failed

record User =
  u_id :: ObjectId
  slack_workspace_id :: string
  access_token :: string
  refresh_token :: "string option"
  token_expires_at :: "int option"
  u_created_at :: int
  u_updated_at :: int

record ScheduledMessage =
  m_id :: ObjectId
  user_id :: ObjectId
  channel :: string
  message :: string
  send_timestamp :: int
  status :: msg_status
  retry_count :: int
  created_at :: int
  updated_at :: int

text \<open>
  The two collections are \<open>null\<close> until \<open>connect()\<close> has run: \<open>None\<close> below.  A
  collection is the list of its documents in natural (insertion) order.
\<close>

record Database =
  users :: "User list option"
  scheduledMessages :: "ScheduledMessage list option"

datatype error =
    DatabaseNotConnected
  | UserNotFound
  | ScheduledMessageNotFound
  | NotFoundOrUnauthorized
  | NoRefreshTokenAvailable
  | FailedToRefreshAccessToken
  | FailedToSendMessage
  | FailedToCancel
  | FailedToSchedule

text \<open>The fields a \<open>Partial<...>\<close> update object may carry, in the order written.\<close>

datatype message_field =
    Set_user_id ObjectId
  | Set_channel string
  | Set_message string
  | Set_send_timestamp int
  | Set_status msg_status
  | Set_retry_count int

datatype user_field =
    Set_slack_workspace_id string
  | Set_access_token string
  | Set_refresh_token "string option"
  | Set_token_expires_at "int option"

fun set_message_field :: "message_field \<Rightarrow> ScheduledMessage \<Rightarrow> ScheduledMessage" where
  "set_message_field (Set_user_id v) m = m\<lparr>user_id := v\<rparr>"
| "set_message_field (Set_channel v) m = m\<lparr>channel := v\<rparr>"
| "set_message_field (Set_message v) m = m\<lparr>message := v\<rparr>"
| "set_message_field (Set_send_timestamp v) m = m\<lparr>send_timestamp := v\<rparr>"
| "set_message_field (Set_status v) m = m\<lparr>status := v\<rparr>"
| "set_message_field (Set_retry_count v) m = m\<lparr>retry_count := v\<rparr>"

fun set_user_field :: "user_field \<Rightarrow> User \<Rightarrow> User" where
  "set_user_field (Set_slack_workspace_id v) u = u\<lparr>slack_workspace_id := v\<rparr>"
| "set_user_field (Set_access_token v) u = u\<lparr>access_token := v\<rparr>"
| "set_user_field (Set_refresh_token v) u = u\<lparr>refresh_token := v\<rparr>"
| "set_user_field (Set_token_expires_at v) u = u\<lparr>token_expires_at := v\<rparr>"

text \<open>\<open>{ $set: { ...updates, updated_at: new Date() } }\<close>\<close>

definition set_message_doc :: "message_field list \<Rightarrow> int \<Rightarrow> ScheduledMessage \<Rightarrow> ScheduledMessage" where
  "set_message_doc updates date m = (fold set_message_field updates m)\<lparr>updated_at := date\<rparr>"

definition set_user_doc :: "user_field list \<Rightarrow> int \<Rightarrow> User \<Rightarrow> User" where
  "set_user_doc updates date u = (fold set_user_field updates u)\<lparr>u_updated_at := date\<rparr>"

subsection \<open>Collection primitives\<close>

text \<open>
  \<open>findOne\<close> is \<^const>\<open>find\<close>, the documents that match a query are given by
  \<^const>\<open>filter\<close>.  \<open>updateOne\<close> and \<open>deleteOne\<close> act on the
  first document that matches; \<open>matchedCount\<close> and \<open>deletedCount\<close> are 1 when there is
  one and 0 otherwise.
\<close>

fun updateOne :: "('a \<Rightarrow> bool) \<Rightarrow> ('a \<Rightarrow> 'a) \<Rightarrow> 'a list \<Rightarrow> 'a list" where
  "updateOne p f [] = []"
| "updateOne p f (x # xs) = (if p x then f x # xs else x # updateOne p f xs)"

fun deleteOne :: "('a \<Rightarrow> bool) \<Rightarrow> 'a list \<Rightarrow> 'a list" where
  "deleteOne p [] = []"
| "deleteOne p (x # xs) = (if p x then xs else x # deleteOne p xs)"

definition matchedCount :: "('a \<Rightarrow> bool) \<Rightarrow> 'a list \<Rightarrow> nat" where
  "matchedCount p xs = (case find p xs of None \<Rightarrow> 0 | Some _ \<Rightarrow> 1)"

subsection \<open>Database operations\<close>

text \<open>
  An operation fails where the source raises: the collection is \<open>null\<close>, or no document
  matched.  \<open>new Date()\<close> is the parameter \<open>date\<close>.
\<close>

definition updateUser :: "int \<Rightarrow> Database \<Rightarrow> ObjectId \<Rightarrow> user_field list \<Rightarrow> error + Database" where
  "updateUser date db i updates =
     (case users db of
        None \<Rightarrow> Inl DatabaseNotConnected
      | Some us \<Rightarrow>
          if matchedCount (\<lambda>u. u_id u = i) us = 0 then Inl UserNotFound
          else Inr (db\<lparr>users := Some (updateOne (\<lambda>u. u_id u = i) (set_user_doc updates date) us)\<rparr>))"

definition getUserById :: "Database \<Rightarrow> ObjectId \<Rightarrow> error + User option" where
  "getUserById db i =
     (case users db of
        None \<Rightarrow> Inl DatabaseNotConnected
      | Some us \<Rightarrow> Inr (find (\<lambda>u. u_id u = i) us))"

text \<open>
  \<open>insertOne\<close> appends the document under a fresh \<open>_id\<close>; the id generator of the driver is
  the parameter \<open>new_id\<close>, the two dates are the reading \<open>date\<close> of the clock.
\<close>

definition createScheduledMessage ::
  "ObjectId \<Rightarrow> int \<Rightarrow> Database \<Rightarrow> ObjectId \<Rightarrow> string \<Rightarrow> string \<Rightarrow> int \<Rightarrow> msg_status \<Rightarrow> int
     \<Rightarrow> error + (ObjectId \<times> Database)" where
  "createScheduledMessage new_id date db uid ch txt ts st rc =
     (case scheduledMessages db of
        None \<Rightarrow> Inl DatabaseNotConnected
      | Some ms \<Rightarrow>
          Inr (new_id,
               db\<lparr>scheduledMessages := Some (ms @
                 [\<lparr>m_id = new_id, user_id = uid, channel = ch, message = txt,
                   send_timestamp = ts, status = st, retry_count = rc,
                   created_at = date, updated_at = date\<rparr>])\<rparr>))"

definition getScheduledMessagesByUserId :: "Database \<Rightarrow> ObjectId \<Rightarrow> error + ScheduledMessage list" where
  "getScheduledMessagesByUserId db uid =
     (case scheduledMessages db of
        None \<Rightarrow> Inl DatabaseNotConnected
      | Some ms \<Rightarrow> Inr (sort_key send_timestamp (filter (\<lambda>m. user_id m = uid) ms)))"

text \<open>
  \<open>find(...).toArray()\<close> without a sort yields the matching documents in the order of the
  plan the server runs, which the source does not choose.  \<open>createIndexes\<close> (lines 71 and
  72) builds the indexes \<open>{ status: 1, send_timestamp: 1 }\<close> and \<open>{ send_timestamp: 1 }\<close>:
  a scan of either yields the matches by ascending \<open>send_timestamp\<close>, documents with equal
  keys in the order of their position in the collection.  A scan of the collection yields
  them in natural order.  The plan is a parameter of the model.
\<close>

datatype query_plan = CollectionScan | IndexScan

fun cursor_order :: "query_plan \<Rightarrow> ScheduledMessage list \<Rightarrow> ScheduledMessage list" where
  "cursor_order CollectionScan docs = docs"
| "cursor_order IndexScan docs = sort_key send_timestamp docs"

text \<open>\<open>clock_ms\<close> is the reading of \<open>Date.now()\<close>; \<open>Math.floor(Date.now() / 1000)\<close> is \<open>div 1000\<close>.\<close>

definition getPendingMessages :: "query_plan \<Rightarrow> int \<Rightarrow> Database \<Rightarrow> error + ScheduledMessage list" where
  "getPendingMessages plan clock_ms db =
     (case scheduledMessages db of
        None \<Rightarrow> Inl DatabaseNotConnected
      | Some ms \<Rightarrow>
          Inr (cursor_order plan
                 (filter (\<lambda>m. status m = Pending \<and> send_timestamp m \<le> clock_ms div 1000) ms)))"

definition updateScheduledMessage ::
  "int \<Rightarrow> Database \<Rightarrow> ObjectId \<Rightarrow> message_field list \<Rightarrow> error + Database" where
  "updateScheduledMessage date db i updates =
     (case scheduledMessages db of
        None \<Rightarrow> Inl DatabaseNotConnected
      | Some ms \<Rightarrow>
          if matchedCount (\<lambda>m. m_id m = i) ms = 0 then Inl ScheduledMessageNotFound
          else Inr (db\<lparr>scheduledMessages :=
                       Some (updateOne (\<lambda>m. m_id m = i) (set_message_doc updates date) ms)\<rparr>))"

definition deleteScheduledMessage :: "Database \<Rightarrow> ObjectId \<Rightarrow> ObjectId \<Rightarrow> error + Database" where
  "deleteScheduledMessage db i uid =
     (case scheduledMessages db of
        None \<Rightarrow> Inl DatabaseNotConnected
      | Some ms \<Rightarrow>
          if matchedCount (\<lambda>m. m_id m = i \<and> user_id m = uid) ms = 0 then Inl NotFoundOrUnauthorized
          else Inr (db\<lparr>scheduledMessages :=
                       Some (deleteOne (\<lambda>m. m_id m = i \<and> user_id m = uid) ms)\<rparr>))"

text \<open>The document stored under an id, as \<open>findOne({ _id })\<close> would read it.\<close>

definition stored :: "Database \<Rightarrow> ObjectId \<Rightarrow> ScheduledMessage option" where
  "stored db i =
     (case scheduledMessages db of None \<Rightarrow> None | Some ms \<Rightarrow> find (\<lambda>m. m_id m = i) ms)"

definition stored_user :: "Database \<Rightarrow> ObjectId \<Rightarrow> User option" where
  "stored_user db i =
     (case users db of None \<Rightarrow> None | Some us \<Rightarrow> find (\<lambda>u. u_id u = i) us)"


text \<open>
  Every argument of type \<open>ObjectId | string\<close> is taken after the conversion
  \<open>typeof id === 'string' ? new ObjectId(id) : id\<close>; the scheduler loop only ever passes
  the \<open>_id\<close> of a document it has read.
\<close>

section \<open>Slack service (refreshAccessToken, sendMessage)\<close>

text \<open>
  The two remote calls are parameters of the model.  \<open>oauth.v2.access\<close> either throws
  (network failure) or answers with \<open>response.data\<close>; \<open>chat.postMessage\<close> either throws or
  answers with \<open>result.ok\<close>.
\<close>

record refresh_data =
  data_ok :: bool
  data_access_token :: string
  data_expires_in :: "int option"

datatype refresh_reply = Refresh_throws | Refresh_response refresh_data

datatype post_reply = Post_throws | Post_result bool

record refresh_result =
  r_access_token :: string
  r_expires_in :: int

text \<open>JavaScript truthiness of an optional string and of an optional number.\<close>

fun truthy_str :: "string option \<Rightarrow> bool" where
  "truthy_str None = False"
| "truthy_str (Some s) = (s \<noteq> [])"

fun truthy_num :: "int option \<Rightarrow> bool" where
  "truthy_num None = False"
| "truthy_num (Some n) = (n \<noteq> 0)"

text \<open>\<open>x || d\<close> on an optional number.\<close>

fun or_default :: "int option \<Rightarrow> int \<Rightarrow> int" where
  "or_default None d = d"
| "or_default (Some n) d = (if n \<noteq> 0 then n else d)"

definition refreshAccessToken :: "(string \<Rightarrow> refresh_reply) \<Rightarrow> string option \<Rightarrow> error + refresh_result" where
  "refreshAccessToken oauth_access refreshToken =
     (if \<not> truthy_str refreshToken then Inl NoRefreshTokenAvailable
      else
        (case oauth_access (the refreshToken) of
           Refresh_throws \<Rightarrow> Inl FailedToRefreshAccessToken
         | Refresh_response d \<Rightarrow>
             if \<not> data_ok d then Inl FailedToRefreshAccessToken
             else Inr \<lparr>r_access_token = data_access_token d,
                       r_expires_in = or_default (data_expires_in d) 43200\<rparr>))"

definition sendMessage ::
  "(string \<Rightarrow> string \<Rightarrow> string \<Rightarrow> post_reply) \<Rightarrow> string \<Rightarrow> string \<Rightarrow> string \<Rightarrow> error + unit" where
  "sendMessage postMessage accessToken ch txt =
     (case postMessage accessToken ch txt of
        Post_throws \<Rightarrow> Inl FailedToSendMessage
      | Post_result ok \<Rightarrow> if \<not> ok then Inl FailedToSendMessage else Inr ())"

section \<open>Scheduler service (server/src/services/schedulerService.ts)\<close>

text \<open>
  What one call of \<open>processMessage\<close> sees of the outside world: the reading of
  \<open>Date.now()\<close> when the token is checked (\<open>now_ms\<close>), the reading in the retry handler
  (\<open>retry_now_ms\<close>), the \<open>new Date()\<close> written as \<open>updated_at\<close> (\<open>write_ms\<close>), and the two
  remote calls.
\<close>

record Env =
  now_ms :: int
  retry_now_ms :: int
  write_ms :: int
  oauth_access :: "string \<Rightarrow> refresh_reply"
  chat_postMessage :: "string \<Rightarrow> string \<Rightarrow> string \<Rightarrow> post_reply"

text \<open>
  The remote calls a run makes are recorded as a trace: \<open>RefreshCall u ok\<close> for a call of
  \<open>refreshAccessToken\<close> on behalf of user \<open>u\<close>, \<open>DeliveryCall i ok\<close> for a call of
  \<open>sendMessage\<close> for message \<open>i\<close>; \<open>ok\<close> tells whether the call returned normally.
\<close>

datatype event = RefreshCall ObjectId bool | DeliveryCall ObjectId bool

text \<open>How a block of statements ends: it falls through with a value, returns, or throws.\<close>

datatype 'a flow = Continue 'a | Return | Throw error

type_synonym 'a outcome = "'a \<times> Database \<times> event list"

text \<open>Lines 90 to 105: the body of the inner \<open>try\<close>.\<close>

definition refresh_try :: "Env \<Rightarrow> Database \<Rightarrow> ScheduledMessage \<Rightarrow> User \<Rightarrow> int \<Rightarrow> string flow outcome" where
  "refresh_try env db msg user now =
     (if \<not> truthy_str (refresh_token user) then
        (case updateScheduledMessage (write_ms env) db (m_id msg)
                [Set_status Failed, Set_retry_count (retry_count msg + 1)] of
           Inl e \<Rightarrow> (Throw e, db, [])
         | Inr db' \<Rightarrow> (Return, db', []))
      else
        (case refreshAccessToken (oauth_access env) (refresh_token user) of
           Inl e \<Rightarrow> (Throw e, db, [RefreshCall (u_id user) False])
         | Inr refreshResult \<Rightarrow>
             (case updateUser (write_ms env) db (u_id user)
                     [Set_access_token (r_access_token refreshResult),
                      Set_token_expires_at (Some (now + r_expires_in refreshResult))] of
                Inl e \<Rightarrow> (Throw e, db, [RefreshCall (u_id user) True])
              | Inr db' \<Rightarrow>
                  (Continue (r_access_token refreshResult), db', [RefreshCall (u_id user) True]))))"

text \<open>Lines 89 to 113: the inner \<open>try\<close> with its \<open>catch\<close>.\<close>

definition refresh_step :: "Env \<Rightarrow> Database \<Rightarrow> ScheduledMessage \<Rightarrow> User \<Rightarrow> int \<Rightarrow> string flow outcome" where
  "refresh_step env db msg user now =
     (case refresh_try env db msg user now of
        (Throw e, db1, ev) \<Rightarrow>
          (case updateScheduledMessage (write_ms env) db1 (m_id msg)
                  [Set_status Failed, Set_retry_count (retry_count msg + 1)] of
             Inl e' \<Rightarrow> (Throw e', db1, ev)
           | Inr db2 \<Rightarrow> (Return, db2, ev))
      | (Continue tok, db1, ev) \<Rightarrow> (Continue tok, db1, ev)
      | (Return, db1, ev) \<Rightarrow> (Return, db1, ev))"

text \<open>Lines 116 to 124: send the message and mark it as sent.\<close>

definition send_step :: "Env \<Rightarrow> Database \<Rightarrow> ScheduledMessage \<Rightarrow> string \<Rightarrow> unit flow outcome" where
  "send_step env db msg accessToken =
     (case sendMessage (chat_postMessage env) accessToken (channel msg) (message msg) of
        Inl e \<Rightarrow> (Throw e, db, [DeliveryCall (m_id msg) False])
      | Inr _ \<Rightarrow>
          (case updateScheduledMessage (write_ms env) db (m_id msg) [Set_status Sent] of
             Inl e \<Rightarrow> (Throw e, db, [DeliveryCall (m_id msg) True])
           | Inr db' \<Rightarrow> (Return, db', [DeliveryCall (m_id msg) True])))"

text \<open>Lines 73 to 124: the body of the outer \<open>try\<close>.\<close>

definition processMessage_try :: "Env \<Rightarrow> Database \<Rightarrow> ScheduledMessage \<Rightarrow> unit flow outcome" where
  "processMessage_try env db msg =
     (case getUserById db (user_id msg) of
        Inl e \<Rightarrow> (Throw e, db, [])
      | Inr None \<Rightarrow>
          (case updateScheduledMessage (write_ms env) db (m_id msg) [Set_status Failed] of
             Inl e \<Rightarrow> (Throw e, db, [])
           | Inr db' \<Rightarrow> (Return, db', []))
      | Inr (Some user) \<Rightarrow>
          (let now = now_ms env div 1000 in
           if truthy_num (token_expires_at user) \<and> the (token_expires_at user) \<le> now then
             (case refresh_step env db msg user now of
                (Continue tok, db1, ev) \<Rightarrow>
                  (case send_step env db1 msg tok of (r, db2, ev2) \<Rightarrow> (r, db2, ev @ ev2))
              | (Return, db1, ev) \<Rightarrow> (Return, db1, ev)
              | (Throw e, db1, ev) \<Rightarrow> (Throw e, db1, ev))
           else send_step env db msg (access_token user)))"

text \<open>
  Lines 71 to 148.  The result is \<open>Inl e\<close> when the promise rejects (the update in the
  \<open>catch\<close> handler itself threw), \<open>Inr ()\<close> otherwise.
\<close>

definition processMessage :: "Env \<Rightarrow> Database \<Rightarrow> ScheduledMessage \<Rightarrow> (error + unit) outcome" where
  "processMessage env db msg =
     (case processMessage_try env db msg of
        (Throw e, db1, ev) \<Rightarrow>
          (let newRetryCount = retry_count msg + 1; maxRetries = 3 in
           if newRetryCount \<ge> maxRetries then
             (case updateScheduledMessage (write_ms env) db1 (m_id msg)
                     [Set_status Failed, Set_retry_count newRetryCount] of
                Inl e' \<Rightarrow> (Inl e', db1, ev)
              | Inr db2 \<Rightarrow> (Inr (), db2, ev))
           else
             (case updateScheduledMessage (write_ms env) db1 (m_id msg)
                     [Set_retry_count newRetryCount,
                      Set_send_timestamp (retry_now_ms env div 1000 + 300)] of
                Inl e' \<Rightarrow> (Inl e', db1, ev)
              | Inr db2 \<Rightarrow> (Inr (), db2, ev)))
      | (Continue _, db1, ev) \<Rightarrow> (Inr (), db1, ev)
      | (Return, db1, ev) \<Rightarrow> (Inr (), db1, ev))"

text \<open>Projections of an outcome.\<close>

definition db_of :: "'a outcome \<Rightarrow> Database" where
  "db_of r = fst (snd r)"

definition events_of :: "'a outcome \<Rightarrow> event list" where
  "events_of r = snd (snd r)"


subsection \<open>The scheduler loop\<close>

text \<open>
  One run of \<open>processScheduledMessages\<close> sees the clock once when it lists the due
  messages (\<open>list_ms\<close>), and the server answers that query by the plan \<open>list_plan\<close>; the
  \<open>k\<close>-th call of \<open>processMessage\<close> in its loop sees \<open>call_env k\<close>.
\<close>

record Tick =
  list_ms :: int
  list_plan :: query_plan
  call_env :: "nat \<Rightarrow> Env"

text \<open>
  Lines 63 to 65: \<open>for (const message of pendingMessages) await this.processMessage(message)\<close>.
  A rejected \<open>processMessage\<close> leaves the loop; what was written before stays written.
\<close>

fun process_loop :: "(nat \<Rightarrow> Env) \<Rightarrow> nat \<Rightarrow> Database \<Rightarrow> ScheduledMessage list \<Rightarrow> (error + unit) outcome" where
  "process_loop envs k db [] = (Inr (), db, [])"
| "process_loop envs k db (msg # rest) =
     (case processMessage (envs k) db msg of
        (Inl e, db1, ev) \<Rightarrow> (Inl e, db1, ev)
      | (Inr _, db1, ev) \<Rightarrow>
          (case process_loop envs (Suc k) db1 rest of (r, db2, ev2) \<Rightarrow> (r, db2, ev @ ev2)))"

text \<open>Lines 53 to 69.  Every error is caught and logged.\<close>

definition processScheduledMessages :: "Tick \<Rightarrow> Database \<Rightarrow> Database \<times> event list" where
  "processScheduledMessages t db =
     (case getPendingMessages (list_plan t) (list_ms t) db of
        Inl e \<Rightarrow> (db, [])
      | Inr pendingMessages \<Rightarrow>
          if length pendingMessages = 0 then (db, [])
          else (case process_loop (call_env t) 0 db pendingMessages of (r, db', ev) \<Rightarrow> (db', ev)))"

text \<open>Ticks that do not overlap: each one starts after the one before has finished.\<close>

fun run_ticks :: "Tick list \<Rightarrow> Database \<Rightarrow> Database \<times> event list" where
  "run_ticks [] db = (db, [])"
| "run_ticks (t # ts) db =
     (case processScheduledMessages t db of
        (db1, ev1) \<Rightarrow> (case run_ticks ts db1 of (db2, ev2) \<Rightarrow> (db2, ev1 @ ev2)))"

text \<open>
  Two ticks that overlap: the second timer fires while the first run is still waiting for
  a remote call, so both runs list the due messages from the same store before either has
  written a result.  \<open>processMessage\<close> works on the listed copy of the message and never
  reads the message again, so the remote calls of this schedule are those of the first
  loop followed by those of the second loop on its own list.
\<close>

definition overlapping_ticks :: "Tick \<Rightarrow> Tick \<Rightarrow> Database \<Rightarrow> Database \<times> event list" where
  "overlapping_ticks t1 t2 db =
     (case getPendingMessages (list_plan t1) (list_ms t1) db of
        Inl e \<Rightarrow> processScheduledMessages t2 db
      | Inr pending1 \<Rightarrow>
          (case getPendingMessages (list_plan t2) (list_ms t2) db of
             Inl e \<Rightarrow> processScheduledMessages t1 db
           | Inr pending2 \<Rightarrow>
               (case process_loop (call_env t1) 0 db pending1 of
                  (r1, db1, ev1) \<Rightarrow>
                    (case process_loop (call_env t2) 0 db1 pending2 of
                       (r2, db2, ev2) \<Rightarrow> (db2, ev1 @ ev2)))))"

subsection \<open>Scheduling and cancelling\<close>

text \<open>
  Lines 161 to 178.  The log line formats \<open>new Date(sendTimestamp * 1000).toISOString()\<close>,
  which throws a \<open>RangeError\<close> outside the range of a \<open>Date\<close> (8.64e15 ms either side of
  the epoch), after the record has been inserted.
\<close>

definition valid_date :: "int \<Rightarrow> bool" where
  "valid_date ms \<longleftrightarrow> - 8640000000000000 \<le> ms \<and> ms \<le> 8640000000000000"

definition scheduleMessage ::
  "ObjectId \<Rightarrow> int \<Rightarrow> Database \<Rightarrow> ObjectId \<Rightarrow> string \<Rightarrow> string \<Rightarrow> int \<Rightarrow> (error + ObjectId) \<times> Database" where
  "scheduleMessage new_id date db userId ch txt sendTimestamp =
     (case createScheduledMessage new_id date db userId ch txt sendTimestamp Pending 0 of
        Inl e \<Rightarrow> (Inl FailedToSchedule, db)
      | Inr (messageId, db') \<Rightarrow>
          if valid_date (sendTimestamp * 1000) then (Inr messageId, db')
          else (Inl FailedToSchedule, db'))"

text \<open>Lines 180 to 188.\<close>

definition cancelScheduledMessage :: "Database \<Rightarrow> ObjectId \<Rightarrow> ObjectId \<Rightarrow> error + Database" where
  "cancelScheduledMessage db messageId userId =
     (case deleteScheduledMessage db messageId userId of
        Inl e \<Rightarrow> Inl FailedToCancel
      | Inr db' \<Rightarrow> Inr db')"

section \<open>The schedule route (server/src/routes/messages.ts)\<close>

text \<open>A value of the JSON request body; \<open>JOther\<close> is any object or array.\<close>

datatype json = JUndefined | JNull | JBool bool | JNum int | JStr string | JOther

fun truthy :: "json \<Rightarrow> bool" where
  "truthy JUndefined = False"
| "truthy JNull = False"
| "truthy (JBool b) = b"
| "truthy (JNum n) = (n \<noteq> 0)"
| "truthy (JStr s) = (s \<noteq> [])"
| "truthy JOther = True"

text \<open>
  \<open>String.prototype.trim\<close>.  A string is its UTF-8 bytes; the characters that \<open>trim\<close>
  strips are the white space and line terminators of ECMAScript: U+0009 to U+000D, U+0020,
  U+00A0, U+1680, U+2000 to U+200A, U+2028, U+2029, U+202F, U+205F, U+3000 and U+FEFF,
  listed here by their encodings.
\<close>

definition white_space :: "string list" where
  "white_space =
     [[CHR 0x09], [CHR 0x0A], [CHR 0x0B], [CHR 0x0C], [CHR 0x0D], [CHR 0x20],
      [CHR 0xC2, CHR 0xA0],
      [CHR 0xE1, CHR 0x9A, CHR 0x80],
      [CHR 0xE2, CHR 0x80, CHR 0x80], [CHR 0xE2, CHR 0x80, CHR 0x81],
      [CHR 0xE2, CHR 0x80, CHR 0x82], [CHR 0xE2, CHR 0x80, CHR 0x83],
      [CHR 0xE2, CHR 0x80, CHR 0x84], [CHR 0xE2, CHR 0x80, CHR 0x85],
      [CHR 0xE2, CHR 0x80, CHR 0x86], [CHR 0xE2, CHR 0x80, CHR 0x87],
      [CHR 0xE2, CHR 0x80, CHR 0x88], [CHR 0xE2, CHR 0x80, CHR 0x89],
      [CHR 0xE2, CHR 0x80, CHR 0x8A],
      [CHR 0xE2, CHR 0x80, CHR 0xA8], [CHR 0xE2, CHR 0x80, CHR 0xA9],
      [CHR 0xE2, CHR 0x80, CHR 0xAF],
      [CHR 0xE2, CHR 0x81, CHR 0x9F],
      [CHR 0xE3, CHR 0x80, CHR 0x80],
      [CHR 0xEF, CHR 0xBB, CHR 0xBF]]"

text \<open>
  \<open>strip n ws s\<close> removes from the front of \<open>s\<close> up to \<open>n\<close> of the sequences in \<open>ws\<close>; a
  string of length \<open>n\<close> holds at most \<open>n\<close> of them.
\<close>

fun strip :: "nat \<Rightarrow> string list \<Rightarrow> string \<Rightarrow> string" where
  "strip 0 ws s = s"
| "strip (Suc n) ws s =
     (case find (\<lambda>w. w \<noteq> [] \<and> take (length w) s = w) ws of
        None \<Rightarrow> s
      | Some w \<Rightarrow> strip n ws (drop (length w) s))"

definition trimStart :: "string \<Rightarrow> string" where
  "trimStart s = strip (length s) white_space s"

definition trimEnd :: "string \<Rightarrow> string" where
  "trimEnd s = rev (strip (length s) (map rev white_space) (rev s))"

definition trim :: "string \<Rightarrow> string" where
  "trim s = trimEnd (trimStart s)"

record schedule_request =
  req_user :: "User option"
  body_channel :: json
  body_message :: json
  body_sendTimestamp :: json

record response =
  res_status :: nat
  res_error :: "string option"
  res_messageId :: "ObjectId option"

definition reject :: "nat \<Rightarrow> string \<Rightarrow> response" where
  "reject code txt = \<lparr>res_status = code, res_error = Some txt, res_messageId = None\<rparr>"

text \<open>
  Lines 72 to 126.  \<open>clock_ms\<close> is the reading of \<open>Date.now()\<close> in the handler, \<open>date\<close> the
  \<open>new Date()\<close> of the insert, \<open>new_id\<close> the id the driver gives the new document.
\<close>

definition schedule_route ::
  "ObjectId \<Rightarrow> int \<Rightarrow> int \<Rightarrow> Database \<Rightarrow> schedule_request \<Rightarrow> response \<times> Database" where
  "schedule_route new_id clock_ms date db req =
     (case req_user req of
        None \<Rightarrow> (reject 401 ''User not authenticated'', db)
      | Some user \<Rightarrow>
          if \<not> truthy (body_channel req) \<or> \<not> truthy (body_message req)
               \<or> \<not> truthy (body_sendTimestamp req)
          then (reject 400 ''Channel, message, and sendTimestamp are required'', db)
          else
            (case (body_channel req, body_message req, body_sendTimestamp req) of
               (JStr ch, JStr txt, JNum sendTimestamp) \<Rightarrow>
                 if length (trim txt) = 0 then (reject 400 ''Message cannot be empty'', db)
                 else
                   (let now = clock_ms div 1000 in
                    if sendTimestamp \<le> now
                    then (reject 400 ''Send timestamp must be in the future'', db)
                    else
                      (case scheduleMessage new_id date db (u_id user) ch txt sendTimestamp of
                         (Inl e, db') \<Rightarrow> (reject 500 ''Failed to schedule message'', db')
                       | (Inr messageId, db') \<Rightarrow>
                           (\<lparr>res_status = 200, res_error = None, res_messageId = Some messageId\<rparr>,
                            db')))
             | _ \<Rightarrow> (reject 400 ''Invalid data types for required fields'', db)))"

section \<open>Observations used by the properties\<close>

text \<open>
  What a run leaves alone, what the retry handler writes, how often a message was handed to
  \<open>sendMessage\<close>, and how many attempts its stored state still allows.
\<close>

definition same_others :: "ObjectId \<Rightarrow> Database \<Rightarrow> Database \<Rightarrow> bool" where
  "same_others i db db' \<longleftrightarrow>
     (\<forall>j. j \<noteq> i \<longrightarrow> stored db' j = stored db j)
     \<and> map_option (map m_id) (scheduledMessages db') = map_option (map m_id) (scheduledMessages db)"

fun is_delivery :: "event \<Rightarrow> bool" where
  "is_delivery (DeliveryCall i ok) = True"
| "is_delivery (RefreshCall u ok) = False"

definition retry_outcome :: "Env \<Rightarrow> ScheduledMessage \<Rightarrow> ScheduledMessage" where
  "retry_outcome env msg =
     (if retry_count msg + 1 \<ge> 3
      then msg\<lparr>status := Failed, retry_count := retry_count msg + 1, updated_at := write_ms env\<rparr>
      else msg\<lparr>retry_count := retry_count msg + 1,
               send_timestamp := retry_now_ms env div 1000 + 300, updated_at := write_ms env\<rparr>)"

definition distinct_ids :: "Database \<Rightarrow> bool" where
  "distinct_ids db = (case scheduledMessages db of None \<Rightarrow> True | Some ms \<Rightarrow> distinct (map m_id ms))"

definition attempts :: "ObjectId \<Rightarrow> event list \<Rightarrow> nat" where
  "attempts i ev = count_list ev (DeliveryCall i True) + count_list ev (DeliveryCall i False)"

definition successes :: "ObjectId \<Rightarrow> event list \<Rightarrow> nat" where
  "successes i ev = count_list ev (DeliveryCall i True)"

definition attempts_left :: "ScheduledMessage \<Rightarrow> nat" where
  "attempts_left m =
     (if status m = Pending then (if retry_count m + 1 \<ge> 3 then 1 else nat (3 - retry_count m)) else 0)"

definition budget :: "Database \<Rightarrow> ObjectId \<Rightarrow> nat" where
  "budget db i = (case stored db i of None \<Rightarrow> 0 | Some m \<Rightarrow> attempts_left m)"

definition undelivered :: "Database \<Rightarrow> ObjectId \<Rightarrow> nat" where
  "undelivered db i = (case stored db i of None \<Rightarrow> 0 | Some m \<Rightarrow> if status m = Pending then 1 else 0)"

definition same_ids :: "Database \<Rightarrow> Database \<Rightarrow> bool" where
  "same_ids db db' \<longleftrightarrow>
     map_option (map m_id) (scheduledMessages db') = map_option (map m_id) (scheduledMessages db)"

definition due :: "int \<Rightarrow> ScheduledMessage \<Rightarrow> bool" where
  "due clock_ms m \<longleftrightarrow> status m = Pending \<and> send_timestamp m \<le> clock_ms div 1000"

section \<open>Concrete stores, clocks and remote behaviours\<close>

definition example_user :: "int option \<Rightarrow> string option \<Rightarrow> User" where
  "example_user expiry refresh =
     \<lparr>u_id = 7, slack_workspace_id = ''T1'', access_token = ''xoxb-1'', refresh_token = refresh,
      token_expires_at = expiry, u_created_at = 0, u_updated_at = 0\<rparr>"

definition example_message :: "ObjectId \<Rightarrow> int \<Rightarrow> msg_status \<Rightarrow> int \<Rightarrow> ScheduledMessage" where
  "example_message i ts st rc =
     \<lparr>m_id = i, user_id = 7, channel = ''C1'', message = ''hello'', send_timestamp = ts,
      status = st, retry_count = rc, created_at = 0, updated_at = 0\<rparr>"

definition example_db :: "User list \<Rightarrow> ScheduledMessage list \<Rightarrow> Database" where
  "example_db us ms = \<lparr>users = Some us, scheduledMessages = Some ms\<rparr>"

definition example_env :: "int \<Rightarrow> bool \<Rightarrow> Env" where
  "example_env clock delivered =
     \<lparr>now_ms = clock, retry_now_ms = clock + 1000, write_ms = clock + 2000,
      oauth_access = (\<lambda>rt. Refresh_response
         \<lparr>data_ok = True, data_access_token = ''xoxb-2'', data_expires_in = None\<rparr>),
      chat_postMessage = (\<lambda>tok ch txt. Post_result delivered)\<rparr>"

definition example_tick :: "int \<Rightarrow> bool \<Rightarrow> Tick" where
  "example_tick clock delivered =
     \<lparr>list_ms = clock, list_plan = IndexScan, call_env = (\<lambda>k. example_env clock delivered)\<rparr>"

section \<open>Properties of the model\<close>

text \<open>The equations that evaluate the model on a concrete store.\<close>

lemmas example_defs = example_user_def example_message_def example_db_def example_env_def example_tick_def

lemmas model_defs = processMessage_def processMessage_try_def refresh_step_def refresh_try_def
  send_step_def sendMessage_def refreshAccessToken_def updateScheduledMessage_def updateUser_def
  getUserById_def matchedCount_def set_message_doc_def set_user_doc_def stored_def stored_user_def
  db_of_def events_of_def Let_def

subsection \<open>Writing one document\<close>

text \<open>
  An update of the message stored under an id succeeds, rewrites that document and
  leaves the documents under other ids, the ids themselves and the users alone.
\<close>

lemma m_id_set_message_field: "m_id (set_message_field f m) = m_id m"
  by (cases f) simp_all

lemma m_id_fold_set_message_field: "m_id (fold set_message_field fs m) = m_id m"
  by (induction fs arbitrary: m) (simp_all add: m_id_set_message_field)

lemma m_id_set_message_doc: "m_id (set_message_doc fs d m) = m_id m"
  by (simp add: set_message_doc_def m_id_fold_set_message_field)

lemma find_updateOne_same:
  assumes "\<And>x. key (f x) = key x"
  shows "find (\<lambda>x. key x = i) (updateOne (\<lambda>x. key x = i) f xs) = map_option f (find (\<lambda>x. key x = i) xs)"
  using assms by (induction xs) simp_all

lemma find_updateOne_other:
  assumes "\<And>x. key (f x) = key x" and "j \<noteq> i"
  shows "find (\<lambda>x. key x = j) (updateOne (\<lambda>x. key x = i) f xs) = find (\<lambda>x. key x = j) xs"
  using assms by (induction xs) auto

lemma map_key_updateOne:
  assumes "\<And>x. key (f x) = key x"
  shows "map key (updateOne p f xs) = map key xs"
  using assms by (induction xs) simp_all

lemma matchedCount_find: "find p xs = Some x \<Longrightarrow> matchedCount p xs \<noteq> 0"
  by (simp add: matchedCount_def)

lemma updateScheduledMessage_stored:
  assumes "stored db i = Some m"
  shows "\<exists>db'. updateScheduledMessage d db i fs = Inr db'
           \<and> stored db' i = Some (set_message_doc fs d m)
           \<and> (\<forall>j. j \<noteq> i \<longrightarrow> stored db' j = stored db j)
           \<and> users db' = users db
           \<and> map_option (map m_id) (scheduledMessages db') = map_option (map m_id) (scheduledMessages db)"
proof (cases "scheduledMessages db")
  case None
  with assms show ?thesis by (simp add: stored_def)
next
  case (Some ms)
  with assms have f: "find (\<lambda>x. m_id x = i) ms = Some m" by (simp add: stored_def)
  then have mc: "matchedCount (\<lambda>x. m_id x = i) ms \<noteq> 0" by (rule matchedCount_find)
  show ?thesis
    using Some f mc
    by (simp add: updateScheduledMessage_def stored_def find_updateOne_same [where key = m_id]
        find_updateOne_other [where key = m_id] map_key_updateOne [where key = m_id] m_id_set_message_doc)
qed

lemma updateUser_frame:
  "updateUser d db i fs = Inr db' \<Longrightarrow> scheduledMessages db' = scheduledMessages db"
  by (auto simp: updateUser_def split: option.splits if_splits)

lemma same_others_users: "scheduledMessages db1 = scheduledMessages db \<Longrightarrow> same_others i db1 db' \<Longrightarrow> same_others i db db'"
  by (simp add: same_others_def stored_def)

lemma update_msg:
  assumes "stored db i = Some m"
  obtains db' where "updateScheduledMessage d db i fs = Inr db'"
    and "stored db' i = Some (set_message_doc fs d m)"
    and "same_others i db db'" and "users db' = users db"
  using updateScheduledMessage_stored [OF assms, of d fs] unfolding same_others_def by blast

subsection \<open>The paths through processMessage\<close>

text \<open>
  For a message that is passed as it is stored, every way through \<open>processMessage\<close> ends
  in one of five outcomes; the promise never rejects.
\<close>

lemma send_step_cases:
  assumes H: "stored db (m_id msg) = Some msg"
  obtains (sent) db' where "send_step env db msg tok = (Return, db', [DeliveryCall (m_id msg) True])"
      and "stored db' (m_id msg) = Some (msg\<lparr>status := Sent, updated_at := write_ms env\<rparr>)"
      and "same_others (m_id msg) db db'" and "users db' = users db"
    | (failed) e where "send_step env db msg tok = (Throw e, db, [DeliveryCall (m_id msg) False])"
proof (cases "sendMessage (chat_postMessage env) tok (channel msg) (message msg)")
  case (Inl e)
  then have "send_step env db msg tok = (Throw e, db, [DeliveryCall (m_id msg) False])"
    by (simp add: send_step_def)
  then show ?thesis by (rule failed)
next
  case (Inr u)
  from H obtain db' where u: "updateScheduledMessage (write_ms env) db (m_id msg) [Set_status Sent] = Inr db'"
    and s: "stored db' (m_id msg) = Some (set_message_doc [Set_status Sent] (write_ms env) msg)"
    and o: "same_others (m_id msg) db db'" and us: "users db' = users db"
    by (rule update_msg)
  have "send_step env db msg tok = (Return, db', [DeliveryCall (m_id msg) True])"
    using Inr u by (simp add: send_step_def)
  moreover have "stored db' (m_id msg) = Some (msg\<lparr>status := Sent, updated_at := write_ms env\<rparr>)"
    using s by (simp add: set_message_doc_def)
  ultimately show ?thesis using o us by (rule sent)
qed

lemma refresh_step_cases:
  assumes H: "stored db (m_id msg) = Some msg"
  obtains (refreshed) tok db1 where
        "refresh_step env db msg user now = (Continue tok, db1, [RefreshCall (u_id user) True])"
        and "scheduledMessages db1 = scheduledMessages db"
    | (gave_up) db1 ev where "refresh_step env db msg user now = (Return, db1, ev)"
        and "filter is_delivery ev = []"
        and "stored db1 (m_id msg) =
               Some (msg\<lparr>status := Failed, retry_count := retry_count msg + 1, updated_at := write_ms env\<rparr>)"
        and "same_others (m_id msg) db db1"
proof -
  let ?fs = "[Set_status Failed, Set_retry_count (retry_count msg + 1)]"
  from H obtain db' where u: "updateScheduledMessage (write_ms env) db (m_id msg) ?fs = Inr db'"
    and s: "stored db' (m_id msg) = Some (set_message_doc ?fs (write_ms env) msg)"
    and o: "same_others (m_id msg) db db'"
    by (rule update_msg)
  have s': "stored db' (m_id msg) =
      Some (msg\<lparr>status := Failed, retry_count := retry_count msg + 1, updated_at := write_ms env\<rparr>)"
    using s by (simp add: set_message_doc_def)
  show ?thesis
  proof (cases "refresh_try env db msg user now")
    case (fields fl db1 ev)
    show ?thesis
    proof (cases fl)
      case (Continue tok)
      with fields have "refresh_step env db msg user now = (Continue tok, db1, [RefreshCall (u_id user) True])
          \<and> scheduledMessages db1 = scheduledMessages db"
        by (auto simp: refresh_step_def refresh_try_def split: if_splits sum.splits dest: updateUser_frame)
      then show ?thesis using refreshed by blast
    next
      case Return
      with fields u have "refresh_step env db msg user now = (Return, db', []) \<and> db1 = db' \<and> ev = []"
        by (auto simp: refresh_step_def refresh_try_def split: if_splits sum.splits)
      then show ?thesis using gave_up [of db' "[]"] s' o by simp
    next
      case (Throw e)
      with fields u have d: "db1 = db \<and> filter is_delivery ev = []"
        by (auto simp: refresh_try_def split: if_splits sum.splits)
      with fields Throw u have "refresh_step env db msg user now = (Return, db', ev)"
        by (simp add: refresh_step_def)
      then show ?thesis using gave_up [of db' ev] s' o d by simp
    qed
  qed
qed

lemma processMessage_try_cases:
  assumes H: "stored db (m_id msg) = Some msg"
  obtains (db_down) e where "processMessage_try env db msg = (Throw e, db, [])"
    | (no_user) db' where "processMessage_try env db msg = (Return, db', [])"
        and "getUserById db (user_id msg) = Inr None"
        and "stored db' (m_id msg) = Some (msg\<lparr>status := Failed, updated_at := write_ms env\<rparr>)"
        and "same_others (m_id msg) db db'"
    | (gave_up) db' ev where "processMessage_try env db msg = (Return, db', ev)"
        and "filter is_delivery ev = []"
        and "stored db' (m_id msg) =
               Some (msg\<lparr>status := Failed, retry_count := retry_count msg + 1, updated_at := write_ms env\<rparr>)"
        and "same_others (m_id msg) db db'"
    | (sent) db' ev where "processMessage_try env db msg = (Return, db', ev)"
        and "filter is_delivery ev = [DeliveryCall (m_id msg) True]"
        and "stored db' (m_id msg) = Some (msg\<lparr>status := Sent, updated_at := write_ms env\<rparr>)"
        and "same_others (m_id msg) db db'"
    | (send_failed) e db1 ev where "processMessage_try env db msg = (Throw e, db1, ev)"
        and "filter is_delivery ev = [DeliveryCall (m_id msg) False]"
        and "scheduledMessages db1 = scheduledMessages db"
proof (cases "getUserById db (user_id msg)")
  case (Inl e)
  then have "processMessage_try env db msg = (Throw e, db, [])"
    by (simp add: processMessage_try_def Let_def)
  then show ?thesis by (rule db_down)
next
  case (Inr uo)
  show ?thesis
  proof (cases uo)
    case None
    from H obtain db' where u: "updateScheduledMessage (write_ms env) db (m_id msg) [Set_status Failed] = Inr db'"
      and s: "stored db' (m_id msg) = Some (set_message_doc [Set_status Failed] (write_ms env) msg)"
      and o: "same_others (m_id msg) db db'"
      by (rule update_msg)
    have "processMessage_try env db msg = (Return, db', [])"
      using Inr None u by (simp add: processMessage_try_def Let_def)
    moreover have "stored db' (m_id msg) = Some (msg\<lparr>status := Failed, updated_at := write_ms env\<rparr>)"
      using s by (simp add: set_message_doc_def)
    ultimately show ?thesis using Inr None o no_user by blast
  next
    case (Some user)
    let ?now = "now_ms env div 1000"
    show ?thesis
    proof (cases "truthy_num (token_expires_at user) \<and> the (token_expires_at user) \<le> ?now")
      case False
      then have eq: "processMessage_try env db msg = send_step env db msg (access_token user)"
        using Inr Some by (auto simp add: processMessage_try_def Let_def)
      from H show ?thesis
      proof (cases rule: send_step_cases [where env = env and tok = "access_token user"])
        case (sent db')
        then show ?thesis using eq by (intro that(4) [of db' "[DeliveryCall (m_id msg) True]"]) simp_all
      next
        case (failed e)
        then show ?thesis using eq by (intro send_failed [of e db "[DeliveryCall (m_id msg) False]"]) simp_all
      qed
    next
      case True
      from H show ?thesis
      proof (cases rule: refresh_step_cases [where env = env and user = user and now = ?now])
        case (gave_up db1 ev)
        then have "processMessage_try env db msg = (Return, db1, ev)"
          using Inr Some True by (simp add: processMessage_try_def Let_def)
        then show ?thesis using gave_up by (intro that(3) [of db1 ev]) simp_all
      next
        case (refreshed tok db1)
        then have H1: "stored db1 (m_id msg) = Some msg"
          using H by (simp add: stored_def)
        have eq: "processMessage_try env db msg =
            (case send_step env db1 msg tok of (r, db2, ev2) \<Rightarrow> (r, db2, [RefreshCall (u_id user) True] @ ev2))"
          using Inr Some True refreshed by (simp add: processMessage_try_def Let_def)
        from H1 show ?thesis
        proof (cases rule: send_step_cases [where env = env and tok = tok])
          case (sent db')
          have "same_others (m_id msg) db db'"
            using refreshed(2) sent(3) by (rule same_others_users)
          then show ?thesis using eq sent
            by (intro that(4) [of db' "[RefreshCall (u_id user) True, DeliveryCall (m_id msg) True]"]) simp_all
        next
          case (failed e)
          then show ?thesis using eq refreshed(2)
            by (intro send_failed [of e db1 "[RefreshCall (u_id user) True, DeliveryCall (m_id msg) False]"]) simp_all
        qed
      qed
    qed
  qed
qed

lemma retry_update:
  assumes H: "stored db1 (m_id msg) = Some msg"
    and t: "processMessage_try env db msg = (Throw e, db1, ev)"
  obtains db' where "processMessage env db msg = (Inr (), db', ev)"
    and "stored db' (m_id msg) = Some (retry_outcome env msg)"
    and "same_others (m_id msg) db1 db'"
proof (cases "retry_count msg + 1 \<ge> 3")
  case True
  let ?fs = "[Set_status Failed, Set_retry_count (retry_count msg + 1)]"
  from H obtain db' where u: "updateScheduledMessage (write_ms env) db1 (m_id msg) ?fs = Inr db'"
    and s: "stored db' (m_id msg) = Some (set_message_doc ?fs (write_ms env) msg)"
    and o: "same_others (m_id msg) db1 db'"
    by (rule update_msg)
  have "processMessage env db msg = (Inr (), db', ev)"
    using t True u by (simp add: processMessage_def Let_def)
  moreover have "stored db' (m_id msg) = Some (retry_outcome env msg)"
    using s True by (simp add: set_message_doc_def retry_outcome_def)
  ultimately show ?thesis using o by (rule that)
next
  case False
  let ?fs = "[Set_retry_count (retry_count msg + 1), Set_send_timestamp (retry_now_ms env div 1000 + 300)]"
  from H obtain db' where u: "updateScheduledMessage (write_ms env) db1 (m_id msg) ?fs = Inr db'"
    and s: "stored db' (m_id msg) = Some (set_message_doc ?fs (write_ms env) msg)"
    and o: "same_others (m_id msg) db1 db'"
    by (rule update_msg)
  have "processMessage env db msg = (Inr (), db', ev)"
    using t False u by (simp add: processMessage_def Let_def)
  moreover have "stored db' (m_id msg) = Some (retry_outcome env msg)"
    using s False by (simp add: set_message_doc_def retry_outcome_def)
  ultimately show ?thesis using o by (rule that)
qed

lemma processMessage_cases:
  assumes H: "stored db (m_id msg) = Some msg"
  obtains (no_user) db' where "processMessage env db msg = (Inr (), db', [])"
        and "getUserById db (user_id msg) = Inr None"
        and "stored db' (m_id msg) = Some (msg\<lparr>status := Failed, updated_at := write_ms env\<rparr>)"
        and "same_others (m_id msg) db db'"
    | (gave_up) db' ev where "processMessage env db msg = (Inr (), db', ev)"
        and "filter is_delivery ev = []"
        and "stored db' (m_id msg) =
               Some (msg\<lparr>status := Failed, retry_count := retry_count msg + 1, updated_at := write_ms env\<rparr>)"
        and "same_others (m_id msg) db db'"
    | (db_down) db' where "processMessage env db msg = (Inr (), db', [])"
        and "stored db' (m_id msg) = Some (retry_outcome env msg)"
        and "same_others (m_id msg) db db'"
    | (sent) db' ev where "processMessage env db msg = (Inr (), db', ev)"
        and "filter is_delivery ev = [DeliveryCall (m_id msg) True]"
        and "stored db' (m_id msg) = Some (msg\<lparr>status := Sent, updated_at := write_ms env\<rparr>)"
        and "same_others (m_id msg) db db'"
    | (retry) db' ev where "processMessage env db msg = (Inr (), db', ev)"
        and "filter is_delivery ev = [DeliveryCall (m_id msg) False]"
        and "stored db' (m_id msg) = Some (retry_outcome env msg)"
        and "same_others (m_id msg) db db'"
  using H
proof (cases rule: processMessage_try_cases [where env = env])
  case (db_down e)
  from H this obtain db' where "processMessage env db msg = (Inr (), db', [])"
    and "stored db' (m_id msg) = Some (retry_outcome env msg)"
    and "same_others (m_id msg) db db'"
    by (rule retry_update)
  then show ?thesis by (rule that(3))
next
  case (no_user db')
  then have "processMessage env db msg = (Inr (), db', [])"
    by (simp add: processMessage_def Let_def)
  then show ?thesis using no_user by (intro that(1) [of db']) simp_all
next
  case (gave_up db' ev)
  then have "processMessage env db msg = (Inr (), db', ev)"
    by (simp add: processMessage_def Let_def)
  then show ?thesis using gave_up by (intro that(2) [of db' ev]) simp_all
next
  case (sent db' ev)
  then have "processMessage env db msg = (Inr (), db', ev)"
    by (simp add: processMessage_def Let_def)
  then show ?thesis using sent by (intro that(4) [of db' ev]) simp_all
next
  case (send_failed e db1 ev)
  then have H1: "stored db1 (m_id msg) = Some msg"
    using H by (simp add: stored_def)
  from H1 send_failed(1) obtain db' where p: "processMessage env db msg = (Inr (), db', ev)"
    and s: "stored db' (m_id msg) = Some (retry_outcome env msg)"
    and o: "same_others (m_id msg) db1 db'"
    by (rule retry_update)
  have "same_others (m_id msg) db db'"
    using send_failed(3) o by (rule same_others_users)
  with p s send_failed(2) show ?thesis by (intro that(5) [of db' ev]) simp_all
qed

subsection \<open>Attempts and what is left of them\<close>

text \<open>
  One call of \<open>processMessage\<close> on a pending message spends at most one of the attempts
  its stored state allows, and delivers at most once.
\<close>

lemma count_list_filter: "P x \<Longrightarrow> count_list (filter P xs) x = count_list xs x"
  by (induction xs) auto

lemma attempts_filter: "attempts j ev = attempts j (filter is_delivery ev)"
  by (simp add: attempts_def count_list_filter)

lemma successes_filter: "successes j ev = successes j (filter is_delivery ev)"
  by (simp add: successes_def count_list_filter)

lemma attempts_append: "attempts j (ev @ ev') = attempts j ev + attempts j ev'"
  by (simp add: attempts_def)

lemma successes_append: "successes j (ev @ ev') = successes j ev + successes j ev'"
  by (simp add: successes_def)

lemma budget_other: "same_others i db db' \<Longrightarrow> j \<noteq> i \<Longrightarrow> budget db' j = budget db j"
  by (simp add: same_others_def budget_def)

lemma undelivered_other: "same_others i db db' \<Longrightarrow> j \<noteq> i \<Longrightarrow> undelivered db' j = undelivered db j"
  by (simp add: same_others_def undelivered_def)

lemma attempts_left_retry:
  "status msg = Pending \<Longrightarrow> attempts_left (retry_outcome env msg) + 1 \<le> attempts_left msg"
  by (simp add: attempts_left_def retry_outcome_def) arith

lemma attempts_left_pending: "status m = Pending \<Longrightarrow> Suc 0 \<le> attempts_left m"
  by (simp add: attempts_left_def) arith

lemma attempts_left_terminal: "status m \<noteq> Pending \<Longrightarrow> attempts_left m = 0"
  by (simp add: attempts_left_def)

lemma processMessage_step:
  assumes H: "stored db (m_id msg) = Some msg" and P: "status msg = Pending"
  shows "\<exists>db' ev. processMessage env db msg = (Inr (), db', ev)
    \<and> same_others (m_id msg) db db'
    \<and> (\<forall>j. attempts j ev + budget db' j \<le> budget db j)
    \<and> (\<forall>j. successes j ev + undelivered db' j \<le> undelivered db j)"
proof -
  have core: "\<exists>db' ev. processMessage env db msg = (Inr (), db', ev) \<and> same_others (m_id msg) db db'
      \<and> (attempts (m_id msg) ev + budget db' (m_id msg) \<le> budget db (m_id msg))
      \<and> (successes (m_id msg) ev + undelivered db' (m_id msg) \<le> undelivered db (m_id msg))
      \<and> (\<forall>j. j \<noteq> m_id msg \<longrightarrow> attempts j ev = 0 \<and> successes j ev = 0)"
    using H
  proof (cases rule: processMessage_cases [where env = env])
    case (no_user db')
    then show ?thesis using H P
      by (simp add: attempts_def successes_def budget_def undelivered_def attempts_left_terminal)
  next
    case (gave_up db' ev)
    then show ?thesis using H P attempts_left_pending [OF P]
      by (simp add: attempts_filter [of _ ev] successes_filter [of _ ev])
         (simp add: attempts_def successes_def budget_def undelivered_def attempts_left_terminal)
  next
    case (db_down db')
    then show ?thesis using H P attempts_left_retry [OF P, of env]
      by (simp add: attempts_def successes_def budget_def undelivered_def)
  next
    case (sent db' ev)
    then show ?thesis using H P attempts_left_pending [OF P]
      by (simp add: attempts_filter [of _ ev] successes_filter [of _ ev])
         (simp add: attempts_def successes_def budget_def undelivered_def attempts_left_terminal)
  next
    case (retry db' ev)
    then show ?thesis using H P attempts_left_retry [OF P, of env]
      by (simp add: attempts_filter [of _ ev] successes_filter [of _ ev])
         (simp add: attempts_def successes_def budget_def undelivered_def)
  qed
  then obtain db' ev where p: "processMessage env db msg = (Inr (), db', ev)"
    and o: "same_others (m_id msg) db db'"
    and a: "attempts (m_id msg) ev + budget db' (m_id msg) \<le> budget db (m_id msg)"
    and s: "successes (m_id msg) ev + undelivered db' (m_id msg) \<le> undelivered db (m_id msg)"
    and z: "\<And>j. j \<noteq> m_id msg \<Longrightarrow> attempts j ev = 0 \<and> successes j ev = 0"
    by blast
  have "attempts j ev + budget db' j \<le> budget db j" for j
    using a z [of j] budget_other [OF o, of j] by (cases "j = m_id msg") simp_all
  moreover have "successes j ev + undelivered db' j \<le> undelivered db j" for j
    using s z [of j] undelivered_other [OF o, of j] by (cases "j = m_id msg") simp_all
  ultimately show ?thesis using p o by blast
qed

subsection \<open>The loop, a tick and a run of ticks\<close>

text \<open>
  Message ids are unique in a collection, so each listed message is still stored as
  listed when its turn in the loop comes.
\<close>

lemma same_others_ids: "same_others i db db' \<Longrightarrow> same_ids db db'"
  by (simp add: same_others_def same_ids_def)

lemma same_ids_trans: "same_ids db db1 \<Longrightarrow> same_ids db1 db2 \<Longrightarrow> same_ids db db2"
  by (simp add: same_ids_def)

lemma same_ids_distinct: "same_ids db db' \<Longrightarrow> distinct_ids db \<Longrightarrow> distinct_ids db'"
  by (auto simp: same_ids_def distinct_ids_def split: option.splits)

lemma process_loop_inv:
  assumes "distinct (map m_id ms)"
    and "\<forall>m\<in>set ms. stored db (m_id m) = Some m \<and> status m = Pending"
  shows "\<exists>db' ev. process_loop envs k db ms = (Inr (), db', ev)
           \<and> (\<forall>j. attempts j ev + budget db' j \<le> budget db j)
           \<and> (\<forall>j. successes j ev + undelivered db' j \<le> undelivered db j)
           \<and> same_ids db db'
           \<and> (\<forall>j. j \<notin> m_id ` set ms \<longrightarrow> stored db' j = stored db j \<and> attempts j ev = 0)"
  using assms
proof (induction ms arbitrary: k db)
  case Nil
  show ?case by (simp add: same_ids_def attempts_def successes_def)
next
  case (Cons msg rest)
  from Cons.prems have H: "stored db (m_id msg) = Some msg" and P: "status msg = Pending"
    by simp_all
  from processMessage_step [OF H P, of "envs k"] obtain db1 ev1 where
    p: "processMessage (envs k) db msg = (Inr (), db1, ev1)"
    and o: "same_others (m_id msg) db db1"
    and a1: "\<And>j. attempts j ev1 + budget db1 j \<le> budget db j"
    and s1: "\<And>j. successes j ev1 + undelivered db1 j \<le> undelivered db j"
    by blast
  have other: "stored db1 j = stored db j" if "j \<noteq> m_id msg" for j
    using o that by (simp add: same_others_def)
  have z1: "attempts j ev1 = 0" if "j \<noteq> m_id msg" for j
    using a1 [of j] budget_other [OF o that] by simp
  have d: "distinct (map m_id rest)" using Cons.prems(1) by simp
  have r: "\<forall>m\<in>set rest. stored db1 (m_id m) = Some m \<and> status m = Pending"
  proof
    fix m assume m: "m \<in> set rest"
    then have "m_id m \<noteq> m_id msg" using Cons.prems(1) by (auto simp: image_iff)
    then show "stored db1 (m_id m) = Some m \<and> status m = Pending"
      using other [of "m_id m"] Cons.prems(2) m by simp
  qed
  from Cons.IH [OF d r, of "Suc k"] obtain db2 ev2 where
    l: "process_loop envs (Suc k) db1 rest = (Inr (), db2, ev2)"
    and a2: "\<And>j. attempts j ev2 + budget db2 j \<le> budget db1 j"
    and s2: "\<And>j. successes j ev2 + undelivered db2 j \<le> undelivered db1 j"
    and i2: "same_ids db1 db2"
    and f2: "\<And>j. j \<notin> m_id ` set rest \<Longrightarrow> stored db2 j = stored db1 j \<and> attempts j ev2 = 0"
    by blast
  have "process_loop envs k db (msg # rest) = (Inr (), db2, ev1 @ ev2)"
    using p l by simp
  moreover have "attempts j (ev1 @ ev2) + budget db2 j \<le> budget db j" for j
    using a1 [of j] a2 [of j] by (simp add: attempts_append)
  moreover have "successes j (ev1 @ ev2) + undelivered db2 j \<le> undelivered db j" for j
    using s1 [of j] s2 [of j] by (simp add: successes_append)
  moreover have "same_ids db db2"
    using same_others_ids [OF o] i2 by (rule same_ids_trans)
  moreover have "stored db2 j = stored db j \<and> attempts j (ev1 @ ev2) = 0"
    if "j \<notin> m_id ` set (msg # rest)" for j
    using that f2 [of j] other [of j] z1 [of j] by (simp add: attempts_append)
  ultimately show ?case by blast
qed

lemma find_distinct_key:
  "distinct (map key xs) \<Longrightarrow> x \<in> set xs \<Longrightarrow> find (\<lambda>y. key y = key x) xs = Some x"
  by (induction xs) (auto simp: image_iff)

lemma set_cursor_order: "set (cursor_order plan docs) = set docs"
  by (cases plan) simp_all

lemma distinct_cursor_order:
  "distinct (map m_id docs) \<Longrightarrow> distinct (map m_id (cursor_order plan docs))"
  by (cases plan) (simp_all add: distinct_map)

lemma processScheduledMessages_inv:
  assumes D: "distinct_ids db"
  shows "\<exists>db' ev. processScheduledMessages t db = (db', ev)
           \<and> (\<forall>j. attempts j ev + budget db' j \<le> budget db j)
           \<and> (\<forall>j. successes j ev + undelivered db' j \<le> undelivered db j)
           \<and> same_ids db db'
           \<and> (\<forall>j. (\<forall>m. stored db j = Some m \<longrightarrow> \<not> due (list_ms t) m)
                  \<longrightarrow> stored db' j = stored db j \<and> attempts j ev = 0)"
proof (cases "scheduledMessages db")
  case None
  then show ?thesis
    by (simp add: processScheduledMessages_def getPendingMessages_def same_ids_def
        attempts_def successes_def)
next
  case (Some ms)
  let ?P = "\<lambda>m. status m = Pending \<and> send_timestamp m \<le> list_ms t div 1000"
  let ?due = "cursor_order (list_plan t) (filter ?P ms)"
  have g: "getPendingMessages (list_plan t) (list_ms t) db = Inr ?due"
    using Some by (simp add: getPendingMessages_def)
  have dm: "distinct (map m_id ms)" using D Some by (simp add: distinct_ids_def)
  then have "distinct (map m_id (filter ?P ms))" by (rule distinct_map_filter)
  then have d: "distinct (map m_id ?due)" by (rule distinct_cursor_order)
  have r: "\<forall>m\<in>set ?due. stored db (m_id m) = Some m \<and> status m = Pending"
    using Some find_distinct_key [OF dm] by (simp add: stored_def set_cursor_order)
  from process_loop_inv [OF d r, of "call_env t" 0] obtain db' ev where
    l: "process_loop (call_env t) 0 db ?due = (Inr (), db', ev)"
    and a: "\<And>j. attempts j ev + budget db' j \<le> budget db j"
    and s: "\<And>j. successes j ev + undelivered db' j \<le> undelivered db j"
    and i: "same_ids db db'"
    and f: "\<And>j. j \<notin> m_id ` set ?due \<Longrightarrow> stored db' j = stored db j \<and> attempts j ev = 0"
    by blast
  have eq: "processScheduledMessages t db = (db', ev)"
  proof (cases "?due = []")
    case True
    with l show ?thesis using g by (simp add: processScheduledMessages_def)
  next
    case False
    with l show ?thesis using g by (simp add: processScheduledMessages_def)
  qed
  have "stored db' j = stored db j \<and> attempts j ev = 0"
    if n: "\<forall>m. stored db j = Some m \<longrightarrow> \<not> due (list_ms t) m" for j
  proof (rule f)
    show "j \<notin> m_id ` set ?due"
    proof
      assume "j \<in> m_id ` set ?due"
      then obtain m where m: "m \<in> set ms" "?P m" "j = m_id m"
        by (auto simp: set_cursor_order)
      then have "stored db j = Some m"
        using Some find_distinct_key [OF dm, of m] by (simp add: stored_def)
      with n m(2) show False by (simp add: due_def)
    qed
  qed
  with eq a s i show ?thesis by blast
qed

lemma run_ticks_inv:
  assumes "distinct_ids db"
  shows "\<exists>db' ev. run_ticks ts db = (db', ev)
           \<and> (\<forall>j. attempts j ev + budget db' j \<le> budget db j)
           \<and> (\<forall>j. successes j ev + undelivered db' j \<le> undelivered db j)
           \<and> distinct_ids db'"
  using assms
proof (induction ts arbitrary: db)
  case Nil
  then show ?case by (simp add: attempts_def successes_def)
next
  case (Cons t ts)
  from processScheduledMessages_inv [OF Cons.prems, of t] obtain db1 ev1 where
    p: "processScheduledMessages t db = (db1, ev1)"
    and a1: "\<And>j. attempts j ev1 + budget db1 j \<le> budget db j"
    and s1: "\<And>j. successes j ev1 + undelivered db1 j \<le> undelivered db j"
    and i1: "same_ids db db1"
    by blast
  have d1: "distinct_ids db1" using i1 Cons.prems by (rule same_ids_distinct)
  from Cons.IH [OF d1] obtain db2 ev2 where
    r: "run_ticks ts db1 = (db2, ev2)"
    and a2: "\<And>j. attempts j ev2 + budget db2 j \<le> budget db1 j"
    and s2: "\<And>j. successes j ev2 + undelivered db2 j \<le> undelivered db1 j"
    and d2: "distinct_ids db2"
    by blast
  have "run_ticks (t # ts) db = (db2, ev1 @ ev2)" using p r by simp
  moreover have "attempts j (ev1 @ ev2) + budget db2 j \<le> budget db j" for j
    using a1 [of j] a2 [of j] by (simp add: attempts_append)
  moreover have "successes j (ev1 @ ev2) + undelivered db2 j \<le> undelivered db j" for j
    using s1 [of j] s2 [of j] by (simp add: successes_append)
  ultimately show ?case using d2 by blast
qed

subsection \<open>Single paths\<close>

text \<open>
  What is stored after a delivery that succeeded or failed, after a missing owner, after
  an expired credential without a refresh token, and after a refresh that succeeded.
\<close>

lemma delivery_succeeded:
  assumes H: "stored db (m_id msg) = Some msg"
    and D: "DeliveryCall (m_id msg) True \<in> set (events_of (processMessage env db msg))"
  shows "stored (db_of (processMessage env db msg)) (m_id msg)
           = Some (msg\<lparr>status := Sent, updated_at := write_ms env\<rparr>)"
  using H
proof (cases rule: processMessage_cases [where env = env])
  case (sent db' ev)
  then show ?thesis by (simp add: db_of_def)
next
  case (no_user db')
  with D show ?thesis by (simp add: events_of_def)
next
  case (db_down db')
  with D show ?thesis by (simp add: events_of_def)
next
  case (gave_up db' ev)
  from D gave_up(1) have "DeliveryCall (m_id msg) True \<in> set (filter is_delivery ev)"
    by (simp add: events_of_def)
  with gave_up(2) show ?thesis by simp
next
  case (retry db' ev)
  from D retry(1) have "DeliveryCall (m_id msg) True \<in> set (filter is_delivery ev)"
    by (simp add: events_of_def)
  with retry(2) show ?thesis by simp
qed

lemma delivery_failed:
  assumes H: "stored db (m_id msg) = Some msg"
    and D: "DeliveryCall (m_id msg) False \<in> set (events_of (processMessage env db msg))"
  shows "stored (db_of (processMessage env db msg)) (m_id msg) = Some (retry_outcome env msg)"
  using H
proof (cases rule: processMessage_cases [where env = env])
  case (retry db' ev)
  then show ?thesis by (simp add: db_of_def)
next
  case (no_user db')
  with D show ?thesis by (simp add: events_of_def)
next
  case (db_down db')
  then show ?thesis by (simp add: db_of_def)
next
  case (gave_up db' ev)
  from D gave_up(1) have "DeliveryCall (m_id msg) False \<in> set (filter is_delivery ev)"
    by (simp add: events_of_def)
  with gave_up(2) show ?thesis by simp
next
  case (sent db' ev)
  from D sent(1) have "DeliveryCall (m_id msg) False \<in> set (filter is_delivery ev)"
    by (simp add: events_of_def)
  with sent(2) show ?thesis by simp
qed

lemma owner_absent:
  assumes H: "stored db (m_id msg) = Some msg"
    and U: "getUserById db (user_id msg) = Inr None"
  shows "events_of (processMessage env db msg) = []
         \<and> stored (db_of (processMessage env db msg)) (m_id msg)
             = Some (msg\<lparr>status := Failed, updated_at := write_ms env\<rparr>)"
proof -
  from H obtain db' where u: "updateScheduledMessage (write_ms env) db (m_id msg) [Set_status Failed] = Inr db'"
    and s: "stored db' (m_id msg) = Some (set_message_doc [Set_status Failed] (write_ms env) msg)"
    by (rule update_msg)
  have "processMessage env db msg = (Inr (), db', [])"
    using U u by (simp add: processMessage_def processMessage_try_def)
  then show ?thesis using s by (simp add: db_of_def events_of_def set_message_doc_def)
qed

lemma expired_without_refresh:
  assumes H: "stored db (m_id msg) = Some msg"
    and U: "getUserById db (user_id msg) = Inr (Some user)"
    and E: "token_expires_at user = Some e" "e \<noteq> 0" "e \<le> now_ms env div 1000"
    and R: "\<not> truthy_str (refresh_token user)"
  shows "events_of (processMessage env db msg) = []
         \<and> stored (db_of (processMessage env db msg)) (m_id msg)
             = Some (msg\<lparr>status := Failed, retry_count := retry_count msg + 1,
                         updated_at := write_ms env\<rparr>)"
proof -
  let ?fs = "[Set_status Failed, Set_retry_count (retry_count msg + 1)]"
  from H obtain db' where u: "updateScheduledMessage (write_ms env) db (m_id msg) ?fs = Inr db'"
    and s: "stored db' (m_id msg) = Some (set_message_doc ?fs (write_ms env) msg)"
    by (rule update_msg)
  have "refresh_try env db msg user (now_ms env div 1000) = (Return, db', [])"
    using R u by (simp add: refresh_try_def)
  then have "refresh_step env db msg user (now_ms env div 1000) = (Return, db', [])"
    by (simp add: refresh_step_def)
  then have "processMessage_try env db msg = (Return, db', [])"
    using U E by (simp add: processMessage_try_def Let_def)
  then have "processMessage env db msg = (Inr (), db', [])"
    by (simp add: processMessage_def)
  then show ?thesis using s by (simp add: db_of_def events_of_def set_message_doc_def)
qed

lemma updateScheduledMessage_users:
  "updateScheduledMessage d db i fs = Inr db' \<Longrightarrow> users db' = users db"
  by (auto simp: updateScheduledMessage_def split: option.splits if_splits)

lemma send_step_users: "send_step env db msg tok = (fl, db', ev) \<Longrightarrow> users db' = users db"
  by (auto simp: send_step_def split: sum.splits dest: updateScheduledMessage_users)

lemma processMessage_users:
  "processMessage_try env db msg = (fl, db1, ev) \<Longrightarrow> users (db_of (processMessage env db msg)) = users db1"
  by (cases fl)
     (auto simp: processMessage_def db_of_def Let_def split: sum.splits dest: updateScheduledMessage_users)

lemma find_key: "find (\<lambda>x. key x = i) xs = Some x \<Longrightarrow> key x = i"
  by (induction xs) (auto split: if_splits)

lemma refreshed_credential:
  assumes U: "getUserById db (user_id msg) = Inr (Some user)"
    and E: "token_expires_at user = Some e" "e \<noteq> 0" "e \<le> now_ms env div 1000"
    and R: "refreshAccessToken (oauth_access env) (refresh_token user) = Inr res"
  shows "stored_user (db_of (processMessage env db msg)) (u_id user)
           = Some (user\<lparr>access_token := r_access_token res,
                        token_expires_at := Some (now_ms env div 1000 + r_expires_in res),
                        u_updated_at := write_ms env\<rparr>)"
proof -
  let ?now = "now_ms env div 1000"
  let ?fs = "[Set_access_token (r_access_token res), Set_token_expires_at (Some (?now + r_expires_in res))]"
  from U obtain us where us: "users db = Some us" and f: "find (\<lambda>u. u_id u = user_id msg) us = Some user"
    by (auto simp: getUserById_def split: option.splits)
  from f have k: "u_id user = user_id msg" by (rule find_key)
  define db1 where "db1 = db\<lparr>users := Some (updateOne (\<lambda>u. u_id u = u_id user) (set_user_doc ?fs (write_ms env)) us)\<rparr>"
  have uu: "updateUser (write_ms env) db (u_id user) ?fs = Inr db1"
    using us f k by (simp add: updateUser_def matchedCount_def db1_def)
  have T: "truthy_str (refresh_token user)"
    using R by (auto simp: refreshAccessToken_def split: if_splits)
  have "refresh_try env db msg user ?now = (Continue (r_access_token res), db1, [RefreshCall (u_id user) True])"
    using T R uu by (simp add: refresh_try_def)
  then have "refresh_step env db msg user ?now = (Continue (r_access_token res), db1, [RefreshCall (u_id user) True])"
    by (simp add: refresh_step_def)
  then have t: "processMessage_try env db msg =
      (case send_step env db1 msg (r_access_token res) of
         (r, db2, ev2) \<Rightarrow> (r, db2, [RefreshCall (u_id user) True] @ ev2))"
    using U E by (simp add: processMessage_try_def Let_def)
  obtain fl db2 ev2 where ss: "send_step env db1 msg (r_access_token res) = (fl, db2, ev2)"
    by (cases "send_step env db1 msg (r_access_token res)") auto
  then have "users db2 = users db1" by (rule send_step_users)
  moreover have "users (db_of (processMessage env db msg)) = users db2"
    using t ss by (intro processMessage_users [of env db msg fl db2 "[RefreshCall (u_id user) True] @ ev2"]) simp
  ultimately have "users (db_of (processMessage env db msg)) = users db1" by simp
  moreover have "stored_user db1 (u_id user) = Some (set_user_doc ?fs (write_ms env) user)"
    using f k by (simp add: stored_user_def db1_def find_updateOne_same [where key = u_id] set_user_doc_def)
  ultimately show ?thesis by (simp add: stored_user_def set_user_doc_def)
qed

subsection \<open>Bounds and terminal messages\<close>


lemma undelivered_le: "undelivered db i \<le> Suc 0"
  by (simp add: undelivered_def split: option.splits)

lemma run_ticks_terminal:
  assumes "distinct_ids db" and "stored db i = Some m" and "status m \<noteq> Pending"
  shows "stored (fst (run_ticks ts db)) i = Some m"
  using assms
proof (induction ts arbitrary: db)
  case Nil
  then show ?case by simp
next
  case (Cons t ts)
  from processScheduledMessages_inv [OF Cons.prems(1), of t] obtain db1 ev1 where
    p: "processScheduledMessages t db = (db1, ev1)"
    and i1: "same_ids db db1"
    and f: "\<And>j. (\<forall>m. stored db j = Some m \<longrightarrow> \<not> due (list_ms t) m) \<Longrightarrow> stored db1 j = stored db j"
    by blast
  have d1: "distinct_ids db1" using i1 Cons.prems(1) by (rule same_ids_distinct)
  have "stored db1 i = Some m"
    using f [of i] Cons.prems(2,3) by (simp add: due_def)
  from Cons.IH [OF d1 this Cons.prems(3)] show ?case
    using p by (cases "run_ticks ts db1") simp
qed

subsection \<open>Deleting one document\<close>

text \<open>
  \<open>deleteOne\<close> on \<open>_id\<close> and \<open>user_id\<close> removes the document under that id when the owner
  matches, whatever its status.
\<close>

lemma find_conj_distinct:
  "distinct (map key xs) \<Longrightarrow> find (\<lambda>x. key x = i) xs = Some x \<Longrightarrow>
     find (\<lambda>y. key y = i \<and> P y) xs = (if P x then Some x else None)"
  by (induction xs) (auto simp: image_iff find_None_iff split: if_splits)

lemma find_deleteOne_other:
  "j \<noteq> i \<Longrightarrow> find (\<lambda>x. key x = j) (deleteOne (\<lambda>x. key x = i \<and> P x) xs) = find (\<lambda>x. key x = j) xs"
  by (induction xs) auto

lemma find_deleteOne_same:
  "distinct (map key xs) \<Longrightarrow> find (\<lambda>x. key x = i) xs = Some x \<Longrightarrow> P x \<Longrightarrow>
     find (\<lambda>x. key x = i) (deleteOne (\<lambda>x. key x = i \<and> P x) xs) = None"
  by (induction xs) (auto simp: image_iff find_None_iff split: if_splits)

lemma cancel_by_owner:
  assumes D: "distinct_ids db" and S: "stored db i = Some m" and O: "user_id m = uid"
  shows "\<exists>db'. cancelScheduledMessage db i uid = Inr db' \<and> stored db' i = None
           \<and> (\<forall>j. j \<noteq> i \<longrightarrow> stored db' j = stored db j)"
proof -
  from S obtain ms where ms: "scheduledMessages db = Some ms" and f: "find (\<lambda>x. m_id x = i) ms = Some m"
    by (auto simp: stored_def split: option.splits)
  from D ms have dm: "distinct (map m_id ms)" by (simp add: distinct_ids_def)
  have "find (\<lambda>x. m_id x = i \<and> user_id x = uid) ms = Some m"
    using find_conj_distinct [OF dm f, of "\<lambda>x. user_id x = uid"] O by simp
  then have "cancelScheduledMessage db i uid =
      Inr (db\<lparr>scheduledMessages := Some (deleteOne (\<lambda>x. m_id x = i \<and> user_id x = uid) ms)\<rparr>)"
    using ms by (simp add: cancelScheduledMessage_def deleteScheduledMessage_def matchedCount_def)
  moreover have "find (\<lambda>x. m_id x = i) (deleteOne (\<lambda>x. m_id x = i \<and> user_id x = uid) ms) = None"
    using dm f O by (rule find_deleteOne_same)
  ultimately show ?thesis
    using ms by (simp add: stored_def find_deleteOne_other [where key = m_id])
qed

lemma cancel_by_other:
  assumes D: "distinct_ids db" and S: "stored db i = Some m" and O: "user_id m \<noteq> uid"
  shows "cancelScheduledMessage db i uid = Inl FailedToCancel"
proof -
  from S obtain ms where ms: "scheduledMessages db = Some ms" and f: "find (\<lambda>x. m_id x = i) ms = Some m"
    by (auto simp: stored_def split: option.splits)
  from D ms have dm: "distinct (map m_id ms)" by (simp add: distinct_ids_def)
  have "find (\<lambda>x. m_id x = i \<and> user_id x = uid) ms = None"
    using find_conj_distinct [OF dm f, of "\<lambda>x. user_id x = uid"] O by simp
  then show ?thesis
    using ms by (simp add: cancelScheduledMessage_def deleteScheduledMessage_def matchedCount_def)
qed

section \<open>The claims\<close>

subsection \<open>C1: a failed delivery below the retry limit\<close>

text \<open>
  C1 as stated: a pending message whose delivery fails with \<open>retry_count < 3\<close> stays
  pending, with \<open>retry_count\<close> one higher and \<open>send_timestamp\<close> 300 seconds after the clock.
  The handler compares the new count, \<open>retry_count + 1\<close>, with \<open>maxRetries = 3\<close>: at
  \<open>retry_count = 2\<close> the message is marked \<open>failed\<close> and its \<open>send_timestamp\<close> is left
  alone.
\<close>

theorem retry_at_two_fails_counterexample:
  "status (example_message 1 900 Pending 2) = Pending
   \<and> retry_count (example_message 1 900 Pending 2) < 3
   \<and> stored (example_db [example_user None None] [example_message 1 900 Pending 2]) 1
       = Some (example_message 1 900 Pending 2)
   \<and> DeliveryCall 1 False \<in> set (events_of (processMessage (example_env 1000000 False)
         (example_db [example_user None None] [example_message 1 900 Pending 2])
         (example_message 1 900 Pending 2)))
   \<and> map_option status (stored (db_of (processMessage (example_env 1000000 False)
         (example_db [example_user None None] [example_message 1 900 Pending 2])
         (example_message 1 900 Pending 2))) 1) = Some Failed
   \<and> map_option send_timestamp (stored (db_of (processMessage (example_env 1000000 False)
         (example_db [example_user None None] [example_message 1 900 Pending 2])
         (example_message 1 900 Pending 2))) 1) = Some 900"
  by (simp add: example_defs model_defs)

text \<open>
  C1, amended: for every pending message whose delivery attempt fails and whose
  \<open>retry_count\<close> before the attempt satisfies \<open>retry_count + 1 < 3\<close>, after \<open>processMessage\<close>
  the stored message is still pending, its \<open>retry_count\<close> is one higher and its
  \<open>send_timestamp\<close> is the clock of the retry handler, in seconds, plus 300.
\<close>

theorem retry_reschedules_below_limit:
  assumes "stored db (m_id msg) = Some msg"
    and "status msg = Pending"
    and "DeliveryCall (m_id msg) False \<in> set (events_of (processMessage env db msg))"
    and "retry_count msg + 1 < 3"
  shows "map_option status (stored (db_of (processMessage env db msg)) (m_id msg)) = Some Pending
    \<and> map_option retry_count (stored (db_of (processMessage env db msg)) (m_id msg))
        = Some (retry_count msg + 1)
    \<and> map_option send_timestamp (stored (db_of (processMessage env db msg)) (m_id msg))
        = Some (retry_now_ms env div 1000 + 300)"
  using delivery_failed [OF assms(1,3)] assms(2,4) by (simp add: retry_outcome_def)

text \<open>The amended C1 at a message that has failed once before.\<close>

theorem retry_reschedules_below_limit_witness:
  "stored (example_db [example_user None None] [example_message 1 900 Pending 1]) 1
       = Some (example_message 1 900 Pending 1)
   \<and> status (example_message 1 900 Pending 1) = Pending
   \<and> DeliveryCall 1 False \<in> set (events_of (processMessage (example_env 1000000 False)
         (example_db [example_user None None] [example_message 1 900 Pending 1])
         (example_message 1 900 Pending 1)))
   \<and> retry_count (example_message 1 900 Pending 1) + 1 < 3
   \<and> map_option status (stored (db_of (processMessage (example_env 1000000 False)
         (example_db [example_user None None] [example_message 1 900 Pending 1])
         (example_message 1 900 Pending 1))) 1) = Some Pending
   \<and> map_option retry_count (stored (db_of (processMessage (example_env 1000000 False)
         (example_db [example_user None None] [example_message 1 900 Pending 1])
         (example_message 1 900 Pending 1))) 1) = Some 2
   \<and> map_option send_timestamp (stored (db_of (processMessage (example_env 1000000 False)
         (example_db [example_user None None] [example_message 1 900 Pending 1])
         (example_message 1 900 Pending 1))) 1) = Some 1301"
proof -
  let ?m = "example_message 1 900 Pending 1"
  let ?db = "example_db [example_user None None] [?m]"
  let ?env = "example_env 1000000 False"
  have i: "m_id ?m = 1" by (simp add: example_defs)
  have h1: "stored ?db (m_id ?m) = Some ?m" by (simp add: example_defs model_defs)
  have h2: "status ?m = Pending" by (simp add: example_defs)
  have h3: "DeliveryCall (m_id ?m) False \<in> set (events_of (processMessage ?env ?db ?m))"
    by (simp add: example_defs model_defs)
  have h4: "retry_count ?m + 1 < 3" by (simp add: example_defs)
  have r: "retry_count ?m + 1 = 2" by (simp add: example_defs)
  have t: "retry_now_ms ?env div 1000 + 300 = 1301" by (simp add: example_defs)
  show ?thesis
    using h1 h2 h3 h4 retry_reschedules_below_limit [OF h1 h2 h3 h4] unfolding i r t by simp
qed

subsection \<open>C2: the retry limit\<close>




subsection \<open>C3: deliveries of one message across ticks\<close>

text \<open>
  C3 as stated: even when two ticks overlap, the same message id never receives two
  delivery calls that both succeed.  Nothing in \<open>processScheduledMessages\<close> or
  \<open>processMessage\<close> claims or locks a message: a tick that fires 60 seconds after a run
  that has not yet written its result lists the same pending message, and both runs
  deliver it.
\<close>

theorem overlapping_ticks_deliver_twice_counterexample:
  "successes 1 (snd (overlapping_ticks (example_tick 1000000 True) (example_tick 1060000 True)
       (example_db [example_user None None] [example_message 1 900 Pending 0]))) = 2"
  by (simp add: example_defs model_defs overlapping_ticks_def getPendingMessages_def successes_def)

text \<open>
  C3, amended: over any sequence of ticks that do not overlap (each tick lists the due
  messages after the tick before it has finished), on a store whose message ids are
  distinct, no message id receives more than one delivery call that succeeds.
\<close>

theorem sequential_ticks_deliver_once:
  assumes "distinct_ids db"
  shows "successes i (snd (run_ticks ts db)) \<le> 1"
proof -
  from run_ticks_inv [OF assms, of ts] obtain db' ev where
    r: "run_ticks ts db = (db', ev)"
    and b: "\<And>j. successes j ev + undelivered db' j \<le> undelivered db j"
    by blast
  have "successes i ev \<le> undelivered db i" using b [of i] by simp
  also have "\<dots> \<le> 1" using undelivered_le [of db i] by simp
  finally show ?thesis using r by simp
qed

text \<open>The amended C3 at two ticks one minute apart that both find Slack reachable.\<close>

theorem sequential_ticks_deliver_once_witness:
  "distinct_ids (example_db [example_user None None] [example_message 1 900 Pending 0])
   \<and> successes 1 (snd (run_ticks [example_tick 1000000 True, example_tick 1060000 True]
         (example_db [example_user None None] [example_message 1 900 Pending 0]))) \<le> 1"
proof -
  have h: "distinct_ids (example_db [example_user None None] [example_message 1 900 Pending 0])"
    by (simp add: example_defs distinct_ids_def)
  show ?thesis
    using h sequential_ticks_deliver_once [OF h, of 1 "[example_tick 1000000 True, example_tick 1060000 True]"]
    by simp
qed

subsection \<open>C4: cancelling a message that is sent or failed\<close>

text \<open>
  C4 as stated: a cancel call does not alter or remove a message whose status is \<open>sent\<close>
  or \<open>failed\<close>, and a message never changes once it has reached \<open>sent\<close> or \<open>failed\<close>.
  \<open>deleteScheduledMessage\<close> filters on \<open>_id\<close> and \<open>user_id\<close> only, so the owner's cancel
  removes a message that has been sent.  And \<open>processMessage\<close> writes from the listed copy
  of a message with an update that filters on \<open>_id\<close> only: of two overlapping ticks that
  both listed a pending message, the first delivers it and marks it \<open>sent\<close>, the second
  fails to deliver it and rewrites the same message to \<open>failed\<close>.
\<close>

theorem cancel_removes_sent_counterexample:
  "stored (example_db [example_user None None] [example_message 1 900 Sent 0]) 1
       = Some (example_message 1 900 Sent 0)
   \<and> status (example_message 1 900 Sent 0) = Sent
   \<and> cancelScheduledMessage (example_db [example_user None None] [example_message 1 900 Sent 0]) 1 7
       = Inr (example_db [example_user None None] [])
   \<and> stored (example_db [example_user None None] []) 1 = None
   \<and> map_option status (stored (fst (processScheduledMessages (example_tick 1000000 True)
         (example_db [example_user None None] [example_message 1 900 Pending 2]))) 1) = Some Sent
   \<and> map_option status (stored (fst (overlapping_ticks
         (example_tick 1000000 True) (example_tick 1060000 False)
         (example_db [example_user None None] [example_message 1 900 Pending 2]))) 1) = Some Failed
   \<and> map_option retry_count (stored (fst (overlapping_ticks
         (example_tick 1000000 True) (example_tick 1060000 False)
         (example_db [example_user None None] [example_message 1 900 Pending 2]))) 1) = Some 3"
  by (simp add: example_defs model_defs cancelScheduledMessage_def deleteScheduledMessage_def
      overlapping_ticks_def processScheduledMessages_def getPendingMessages_def)

text \<open>
  C4, amended: on a store whose message ids are distinct, a cancel call by the owner of a
  stored message removes that message whatever its status (a \<open>sent\<close> or \<open>failed\<close> message
  is deleted like a pending one) and leaves every other message as it was; a cancel call
  by anyone else fails; and over any sequence of ticks that do not overlap, the scheduler
  loop does not change a message that has reached \<open>sent\<close> or \<open>failed\<close>.
\<close>

theorem cancel_ignores_status:
  assumes "distinct_ids db" and "stored db i = Some m"
  shows "(user_id m = uid \<longrightarrow>
            (\<exists>db'. cancelScheduledMessage db i uid = Inr db' \<and> stored db' i = None
                   \<and> (\<forall>j. j \<noteq> i \<longrightarrow> stored db' j = stored db j)))
       \<and> (user_id m \<noteq> uid \<longrightarrow> cancelScheduledMessage db i uid = Inl FailedToCancel)
       \<and> (status m \<noteq> Pending \<longrightarrow> stored (fst (run_ticks ts db)) i = Some m)"
  using cancel_by_owner [OF assms] cancel_by_other [OF assms] run_ticks_terminal [OF assms]
  by blast

text \<open>The amended C4 at a failed message next to a pending one.\<close>

theorem cancel_ignores_status_witness:
  "distinct_ids (example_db [example_user None None]
       [example_message 1 900 Failed 3, example_message 2 900 Pending 0])
   \<and> stored (example_db [example_user None None]
       [example_message 1 900 Failed 3, example_message 2 900 Pending 0]) 1
       = Some (example_message 1 900 Failed 3)
   \<and> user_id (example_message 1 900 Failed 3) = 7
   \<and> (\<exists>db'. cancelScheduledMessage (example_db [example_user None None]
              [example_message 1 900 Failed 3, example_message 2 900 Pending 0]) 1 7 = Inr db'
          \<and> stored db' 1 = None
          \<and> stored db' 2 = stored (example_db [example_user None None]
              [example_message 1 900 Failed 3, example_message 2 900 Pending 0]) 2)
   \<and> cancelScheduledMessage (example_db [example_user None None]
          [example_message 1 900 Failed 3, example_message 2 900 Pending 0]) 1 8 = Inl FailedToCancel
   \<and> stored (fst (run_ticks [example_tick 1000000 True] (example_db [example_user None None]
          [example_message 1 900 Failed 3, example_message 2 900 Pending 0]))) 1
       = Some (example_message 1 900 Failed 3)"
proof -
  let ?gone = "example_message 1 900 Failed 3"
  let ?store = "example_db [example_user None None] [?gone, example_message 2 900 Pending 0]"
  have h1: "distinct_ids ?store" by (simp add: example_defs distinct_ids_def)
  have h2: "stored ?store 1 = Some ?gone" by (simp add: example_defs model_defs)
  have o: "user_id ?gone = 7" and o': "user_id ?gone \<noteq> 8" and s: "status ?gone \<noteq> Pending"
    by (simp_all add: example_defs)
  have n: "(2::nat) \<noteq> 1" by simp
  from cancel_ignores_status [OF h1 h2, of 7 "[example_tick 1000000 True]"] o s
  have a: "\<exists>db'. cancelScheduledMessage ?store 1 7 = Inr db' \<and> stored db' 1 = None
             \<and> (\<forall>j. j \<noteq> 1 \<longrightarrow> stored db' j = stored ?store j)"
    and c: "stored (fst (run_ticks [example_tick 1000000 True] ?store)) 1 = Some ?gone"
    by blast+
  from cancel_ignores_status [OF h1 h2, of 8 "[]"] o'
  have b: "cancelScheduledMessage ?store 1 8 = Inl FailedToCancel"
    by blast
  from a n have a': "\<exists>db'. cancelScheduledMessage ?store 1 7 = Inr db' \<and> stored db' 1 = None
             \<and> stored db' 2 = stored ?store 2"
    by blast
  show ?thesis using h1 h2 o a' b c by blast
qed

subsection \<open>C5: an expired credential without a refresh token\<close>

text \<open>
  C5: when the owner's credential has an expiry that has passed and no refresh token,
  \<open>processMessage\<close> marks the message failed with \<open>retry_count\<close> one higher and makes no
  remote call at all, so no delivery call.  An expiry is a \<open>token_expires_at\<close> that is a
  number other than 0 (the test of line 87; \<open>null\<close>, \<open>undefined\<close> and 0 are a token that
  does not expire), and it has passed when it is at most the clock in seconds.  A refresh
  token is absent when it is \<open>null\<close>, \<open>undefined\<close> or the empty string.
\<close>

theorem expired_credential_fails_without_delivery:
  assumes "stored db (m_id msg) = Some msg"
    and "getUserById db (user_id msg) = Inr (Some user)"
    and "token_expires_at user = Some e" and "e \<noteq> 0" and "e \<le> now_ms env div 1000"
    and "\<not> truthy_str (refresh_token user)"
  shows "events_of (processMessage env db msg) = []
    \<and> map_option status (stored (db_of (processMessage env db msg)) (m_id msg)) = Some Failed
    \<and> map_option retry_count (stored (db_of (processMessage env db msg)) (m_id msg))
        = Some (retry_count msg + 1)"
  using expired_without_refresh [OF assms] by simp

text \<open>C5 at a credential that expired 500 seconds before the tick.\<close>

theorem expired_credential_fails_without_delivery_witness:
  "stored (example_db [example_user (Some 500) None] [example_message 1 900 Pending 0]) 1
       = Some (example_message 1 900 Pending 0)
   \<and> getUserById (example_db [example_user (Some 500) None] [example_message 1 900 Pending 0]) 7
       = Inr (Some (example_user (Some 500) None))
   \<and> token_expires_at (example_user (Some 500) None) = Some 500
   \<and> (500::int) \<noteq> 0 \<and> 500 \<le> now_ms (example_env 1000000 True) div 1000
   \<and> \<not> truthy_str (refresh_token (example_user (Some 500) None))
   \<and> events_of (processMessage (example_env 1000000 True)
         (example_db [example_user (Some 500) None] [example_message 1 900 Pending 0])
         (example_message 1 900 Pending 0)) = []
   \<and> map_option status (stored (db_of (processMessage (example_env 1000000 True)
         (example_db [example_user (Some 500) None] [example_message 1 900 Pending 0])
         (example_message 1 900 Pending 0))) 1) = Some Failed
   \<and> map_option retry_count (stored (db_of (processMessage (example_env 1000000 True)
         (example_db [example_user (Some 500) None] [example_message 1 900 Pending 0])
         (example_message 1 900 Pending 0))) 1) = Some 1"
proof -
  let ?due = "example_message 1 900 Pending 0"
  let ?owner = "example_user (Some 500) None"
  let ?store = "example_db [?owner] [?due]"
  let ?world = "example_env 1000000 True"
  have k: "m_id ?due = 1" and o: "user_id ?due = 7" and r: "retry_count ?due + 1 = 1"
    by (simp_all add: example_defs)
  have h1: "stored ?store (m_id ?due) = Some ?due" by (simp add: example_defs model_defs)
  have h2: "getUserById ?store (user_id ?due) = Inr (Some ?owner)"
    by (simp add: example_defs model_defs)
  have h3: "token_expires_at ?owner = Some 500" by (simp add: example_defs)
  have h4: "(500::int) \<noteq> 0" by simp
  have h5: "500 \<le> now_ms ?world div 1000" by (simp add: example_defs)
  have h6: "\<not> truthy_str (refresh_token ?owner)" by (simp add: example_defs)
  show ?thesis
    using h1 h2 h3 h4 h5 h6 expired_credential_fails_without_delivery [OF h1 h2 h3 h4 h5 h6]
    unfolding k o r by simp
qed

subsection \<open>C6: a delivery that succeeds\<close>

text \<open>
  C6: for every pending message whose delivery attempt succeeds, after \<open>processMessage\<close>
  the stored message has status \<open>sent\<close> and the \<open>retry_count\<close> it had before the attempt.
\<close>

theorem delivered_message_is_sent:
  assumes "stored db (m_id msg) = Some msg"
    and "status msg = Pending"
    and "DeliveryCall (m_id msg) True \<in> set (events_of (processMessage env db msg))"
  shows "map_option status (stored (db_of (processMessage env db msg)) (m_id msg)) = Some Sent
    \<and> map_option retry_count (stored (db_of (processMessage env db msg)) (m_id msg))
        = Some (retry_count msg)"
  using delivery_succeeded [OF assms(1,3)] by simp

text \<open>C6 at a message that is delivered on its second attempt.\<close>

theorem delivered_message_is_sent_witness:
  "stored (example_db [example_user None None] [example_message 1 900 Pending 1]) 1
       = Some (example_message 1 900 Pending 1)
   \<and> status (example_message 1 900 Pending 1) = Pending
   \<and> DeliveryCall 1 True \<in> set (events_of (processMessage (example_env 1000000 True)
         (example_db [example_user None None] [example_message 1 900 Pending 1])
         (example_message 1 900 Pending 1)))
   \<and> map_option status (stored (db_of (processMessage (example_env 1000000 True)
         (example_db [example_user None None] [example_message 1 900 Pending 1])
         (example_message 1 900 Pending 1))) 1) = Some Sent
   \<and> map_option retry_count (stored (db_of (processMessage (example_env 1000000 True)
         (example_db [example_user None None] [example_message 1 900 Pending 1])
         (example_message 1 900 Pending 1))) 1) = Some 1"
proof -
  let ?due = "example_message 1 900 Pending 1"
  let ?store = "example_db [example_user None None] [?due]"
  let ?world = "example_env 1000000 True"
  have k: "m_id ?due = 1" and r: "retry_count ?due = 1" by (simp_all add: example_defs)
  have h1: "stored ?store (m_id ?due) = Some ?due" by (simp add: example_defs model_defs)
  have h2: "status ?due = Pending" by (simp add: example_defs)
  have h3: "DeliveryCall (m_id ?due) True \<in> set (events_of (processMessage ?world ?store ?due))"
    by (simp add: example_defs model_defs)
  show ?thesis
    using h1 h2 h3 delivered_message_is_sent [OF h1 h2 h3] unfolding k r by simp
qed

subsection \<open>C7: the due messages of a tick\<close>



subsection \<open>C8: scheduling into the past\<close>

text \<open>
  C8: a scheduling request whose \<open>sendTimestamp\<close> is a number that is not strictly after
  the clock is answered at once with status 400 (401 when the request carries no
  authenticated user), \<open>scheduleMessage\<close> is not called and the store is unchanged.  The
  check is made by the route handler; \<open>scheduleMessage\<close> itself does not look at the
  clock.
\<close>

theorem past_timestamp_rejected:
  assumes "body_sendTimestamp req = JNum n" and "n \<le> clock_ms div 1000"
  shows "snd (schedule_route new_id clock_ms date db req) = db
    \<and> res_status (fst (schedule_route new_id clock_ms date db req))
        = (if req_user req = None then 401 else 400)
    \<and> res_messageId (fst (schedule_route new_id clock_ms date db req)) = None"
  using assms
  by (auto simp: schedule_route_def reject_def Let_def split: option.splits json.splits)

text \<open>C8 at a request for the very second of the call.\<close>

theorem past_timestamp_rejected_witness:
  "body_sendTimestamp \<lparr>req_user = Some (example_user None None), body_channel = JStr ''C1'',
        body_message = JStr ''hello'', body_sendTimestamp = JNum 1000\<rparr> = JNum 1000
   \<and> (1000::int) \<le> 1000999 div 1000
   \<and> schedule_route 5 1000999 1000999 (example_db [example_user None None] [])
        \<lparr>req_user = Some (example_user None None), body_channel = JStr ''C1'',
         body_message = JStr ''hello'', body_sendTimestamp = JNum 1000\<rparr>
       = (reject 400 ''Send timestamp must be in the future'', example_db [example_user None None] [])
   \<and> snd (schedule_route 5 1000999 1000999 (example_db [example_user None None] [])
        \<lparr>req_user = Some (example_user None None), body_channel = JStr ''C1'',
         body_message = JStr ''hello'', body_sendTimestamp = JNum 1000\<rparr>)
       = example_db [example_user None None] []
   \<and> res_status (fst (schedule_route 5 1000999 1000999 (example_db [example_user None None] [])
        \<lparr>req_user = Some (example_user None None), body_channel = JStr ''C1'',
         body_message = JStr ''hello'', body_sendTimestamp = JNum 1000\<rparr>)) = 400"
proof -
  let ?req = "\<lparr>req_user = Some (example_user None None), body_channel = JStr ''C1'',
        body_message = JStr ''hello'', body_sendTimestamp = JNum 1000\<rparr>"
  let ?store = "example_db [example_user None None] []"
  have h1: "body_sendTimestamp ?req = JNum 1000" by simp
  have h2: "(1000::int) \<le> 1000999 div 1000" by simp
  have u: "req_user ?req \<noteq> None" by simp
  have e: "schedule_route 5 1000999 1000999 ?store ?req
       = (reject 400 ''Send timestamp must be in the future'', ?store)"
    by (simp add: schedule_route_def trim_def trimStart_def trimEnd_def white_space_def)
  from past_timestamp_rejected [OF h1 h2, of 5 1000999 ?store] u
  have "snd (schedule_route 5 1000999 1000999 ?store ?req) = ?store
      \<and> res_status (fst (schedule_route 5 1000999 1000999 ?store ?req)) = 400"
    by simp
  then show ?thesis using h1 h2 e by blast
qed

subsection \<open>C9: a refresh response without an expiry\<close>

text \<open>
  C9: when the refresh response is \<open>ok\<close> and carries no \<open>expires_in\<close>,
  \<open>refreshAccessToken\<close> returns \<open>expires_in = 43200\<close>, and the credential that
  \<open>processMessage\<close> persists has \<open>token_expires_at\<close> equal to the clock in seconds plus
  43200 (and the new access token), whatever happens to the delivery afterwards.
\<close>

theorem refresh_without_expiry_defaults_to_12h:
  assumes "getUserById db (user_id msg) = Inr (Some user)"
    and "token_expires_at user = Some e" and "e \<noteq> 0" and "e \<le> now_ms env div 1000"
    and "refresh_token user = Some rt" and "rt \<noteq> []"
    and "oauth_access env rt = Refresh_response d" and "data_ok d" and "data_expires_in d = None"
  shows "refreshAccessToken (oauth_access env) (refresh_token user)
           = Inr \<lparr>r_access_token = data_access_token d, r_expires_in = 43200\<rparr>
    \<and> stored_user (db_of (processMessage env db msg)) (u_id user)
           = Some (user\<lparr>access_token := data_access_token d,
                        token_expires_at := Some (now_ms env div 1000 + 43200),
                        u_updated_at := write_ms env\<rparr>)"
proof -
  have r: "refreshAccessToken (oauth_access env) (refresh_token user)
           = Inr \<lparr>r_access_token = data_access_token d, r_expires_in = 43200\<rparr>"
    using assms(5-9) by (simp add: refreshAccessToken_def)
  from refreshed_credential [OF assms(1-4) r] r show ?thesis by simp
qed

text \<open>C9 at a credential that expired 500 seconds before the tick and can be refreshed.\<close>

theorem refresh_without_expiry_defaults_to_12h_witness:
  "getUserById (example_db [example_user (Some 500) (Some ''xoxe-1'')] [example_message 1 900 Pending 0]) 7
       = Inr (Some (example_user (Some 500) (Some ''xoxe-1'')))
   \<and> token_expires_at (example_user (Some 500) (Some ''xoxe-1'')) = Some 500
   \<and> (500::int) \<noteq> 0 \<and> 500 \<le> now_ms (example_env 1000000 True) div 1000
   \<and> refresh_token (example_user (Some 500) (Some ''xoxe-1'')) = Some ''xoxe-1''
   \<and> ''xoxe-1'' \<noteq> []
   \<and> oauth_access (example_env 1000000 True) ''xoxe-1''
       = Refresh_response \<lparr>data_ok = True, data_access_token = ''xoxb-2'', data_expires_in = None\<rparr>
   \<and> refreshAccessToken (oauth_access (example_env 1000000 True)) (Some ''xoxe-1'')
       = Inr \<lparr>r_access_token = ''xoxb-2'', r_expires_in = 43200\<rparr>
   \<and> stored_user (db_of (processMessage (example_env 1000000 True)
         (example_db [example_user (Some 500) (Some ''xoxe-1'')] [example_message 1 900 Pending 0])
         (example_message 1 900 Pending 0))) 7
       = Some ((example_user (Some 500) (Some ''xoxe-1''))
                 \<lparr>access_token := ''xoxb-2'', token_expires_at := Some 44200,
                  u_updated_at := 1002000\<rparr>)"
proof -
  let ?due = "example_message 1 900 Pending 0"
  let ?owner = "example_user (Some 500) (Some ''xoxe-1'')"
  let ?store = "example_db [?owner] [?due]"
  let ?world = "example_env 1000000 True"
  let ?reply = "\<lparr>data_ok = True, data_access_token = ''xoxb-2'', data_expires_in = None\<rparr>"
  have o: "user_id ?due = 7" and k: "u_id ?owner = 7" by (simp_all add: example_defs)
  have h1: "getUserById ?store (user_id ?due) = Inr (Some ?owner)"
    by (simp add: example_defs model_defs)
  have h2: "token_expires_at ?owner = Some 500" by (simp add: example_defs)
  have h3: "(500::int) \<noteq> 0" by simp
  have h4: "500 \<le> now_ms ?world div 1000" by (simp add: example_defs)
  have h5: "refresh_token ?owner = Some ''xoxe-1''" by (simp add: example_defs)
  have h6: "''xoxe-1'' \<noteq> []" by simp
  have h7: "oauth_access ?world ''xoxe-1'' = Refresh_response ?reply" by (simp add: example_defs)
  have h8: "data_ok ?reply" by simp
  have h9: "data_expires_in ?reply = None" by simp
  have c: "now_ms ?world div 1000 + 43200 = 44200" and w: "write_ms ?world = 1002000"
    and a: "data_access_token ?reply = ''xoxb-2''"
    by (simp_all add: example_defs)
  show ?thesis
    using h1 h2 h3 h4 h5 h6 h7
      refresh_without_expiry_defaults_to_12h [OF h1 h2 h3 h4 h5 h6 h7 h8 h9]
    unfolding o k h5 c w a by simp
qed

subsection \<open>C10: a message whose owner is gone\<close>

text \<open>
  C10: when no credential record exists for the owner of a message, \<open>processMessage\<close>
  writes \<open>status = failed\<close> and nothing else: \<open>retry_count\<close> and every other field of the
  message are as before (the store stamps \<open>updated_at\<close> on every write, as it does on all
  paths).  In contrast, a delivery that fails and a credential that has expired without a
  refresh token both leave \<open>retry_count\<close> one higher.
\<close>

theorem missing_owner_only_fails:
  assumes "stored db (m_id msg) = Some msg"
  shows "(getUserById db (user_id msg) = Inr None \<longrightarrow>
            events_of (processMessage env db msg) = []
            \<and> stored (db_of (processMessage env db msg)) (m_id msg)
                = Some (msg\<lparr>status := Failed, updated_at := write_ms env\<rparr>))
       \<and> (DeliveryCall (m_id msg) False \<in> set (events_of (processMessage env db msg)) \<longrightarrow>
            map_option retry_count (stored (db_of (processMessage env db msg)) (m_id msg))
              = Some (retry_count msg + 1))
       \<and> (getUserById db (user_id msg) = Inr (Some user) \<and> token_expires_at user = Some e
            \<and> e \<noteq> 0 \<and> e \<le> now_ms env div 1000 \<and> \<not> truthy_str (refresh_token user) \<longrightarrow>
            map_option retry_count (stored (db_of (processMessage env db msg)) (m_id msg))
              = Some (retry_count msg + 1))"
proof -
  have a: "events_of (processMessage env db msg) = []
            \<and> stored (db_of (processMessage env db msg)) (m_id msg)
                = Some (msg\<lparr>status := Failed, updated_at := write_ms env\<rparr>)"
    if "getUserById db (user_id msg) = Inr None"
    using assms that by (rule owner_absent)
  have b: "map_option retry_count (stored (db_of (processMessage env db msg)) (m_id msg))
              = Some (retry_count msg + 1)"
    if "DeliveryCall (m_id msg) False \<in> set (events_of (processMessage env db msg))"
    using delivery_failed [OF assms that] by (simp add: retry_outcome_def)
  have c: "map_option retry_count (stored (db_of (processMessage env db msg)) (m_id msg))
              = Some (retry_count msg + 1)"
    if "getUserById db (user_id msg) = Inr (Some user) \<and> token_expires_at user = Some e
            \<and> e \<noteq> 0 \<and> e \<le> now_ms env div 1000 \<and> \<not> truthy_str (refresh_token user)"
    using expired_without_refresh [OF assms, of user e env] that by simp
  from a b c show ?thesis by blast
qed

text \<open>C10 at a message whose owner has disconnected the workspace.\<close>

theorem missing_owner_only_fails_witness:
  "stored (example_db [] [example_message 1 900 Pending 2]) 1 = Some (example_message 1 900 Pending 2)
   \<and> getUserById (example_db [] [example_message 1 900 Pending 2]) 7 = Inr None
   \<and> events_of (processMessage (example_env 1000000 True)
        (example_db [] [example_message 1 900 Pending 2]) (example_message 1 900 Pending 2)) = []
   \<and> stored (db_of (processMessage (example_env 1000000 True)
        (example_db [] [example_message 1 900 Pending 2]) (example_message 1 900 Pending 2))) 1
       = Some ((example_message 1 900 Pending 2)\<lparr>status := Failed, updated_at := 1002000\<rparr>)"
proof -
  let ?due = "example_message 1 900 Pending 2"
  let ?store = "example_db [] [?due]"
  let ?world = "example_env 1000000 True"
  have k: "m_id ?due = 1" and o: "user_id ?due = 7" and w: "write_ms ?world = 1002000"
    by (simp_all add: example_defs)
  have h1: "stored ?store (m_id ?due) = Some ?due" by (simp add: example_defs model_defs)
  have h2: "getUserById ?store (user_id ?due) = Inr None" by (simp add: example_defs model_defs)
  from missing_owner_only_fails [OF h1, of ?world] h2
  have "events_of (processMessage ?world ?store ?due) = []
      \<and> stored (db_of (processMessage ?world ?store ?due)) (m_id ?due)
          = Some (?due\<lparr>status := Failed, updated_at := write_ms ?world\<rparr>)"
    by blast
  then show ?thesis using h1 h2 unfolding k o w by simp
qed

end
